theory Spec2Isabelle
  imports Main "HOL-Library.Word"
begin

section \<open>Data model of the order book (simple\_order\_book.hpp)\<close>

text \<open>
  Quantities, prices and identifiers are \<open>uint64_t\<close>, symbols are \<open>uint32_t\<close>:
  they are words, so that \<open>+\<close> and \<open>-\<close> wrap as in the source and \<open>\<le>\<close> is the
  unsigned comparison. A \<open>shared_ptr\<close> to an Order is the address of an Order object
  in a store; the order index and the price levels hold addresses, so an object that
  both of them reach is one object. The wall-clock \<open>timestamp\<close> fields of Order and Trade
  are written once by the constructors and read by no operation; they are left out.
\<close>

type_synonym u64 = "64 word"
type_synonym u32 = "32 word"
type_synonym addr = nat

datatype Side = BUY | SELL

datatype OrderStatus = NEW | PARTIALLY_FILLED | FILLED | CANCELLED | REJECTED

datatype OrderType = LIMIT | MARKET | STOP

record Order =
  order_id :: u64
  symbol_id :: u32
  side :: Side
  order_type :: OrderType
  quantity :: u64
  price :: u64
  stop_price :: u64
  status :: OrderStatus
  filled_quantity :: u64

text \<open>The parameterized constructor: a new order has status NEW and no fills.\<close>

definition new_Order :: "u64 \<Rightarrow> u32 \<Rightarrow> Side \<Rightarrow> OrderType \<Rightarrow> u64 \<Rightarrow> u64 \<Rightarrow> u64 \<Rightarrow> Order" where
  "new_Order oid symbol s type qty px stop_px =
     \<lparr>order_id = oid, symbol_id = symbol, side = s, order_type = type, quantity = qty,
      price = px, stop_price = stop_px, status = NEW, filled_quantity = 0\<rparr>"

definition is_filled :: "Order \<Rightarrow> bool" where
  "is_filled ord = (filled_quantity ord = quantity ord)"

definition remaining_quantity :: "Order \<Rightarrow> u64" where
  "remaining_quantity ord = quantity ord - filled_quantity ord"

record Trade =
  trade_id :: u64
  buy_order_id :: u64
  sell_order_id :: u64
  trade_symbol_id :: u32
  trade_quantity :: u64
  trade_price :: u64

subsection \<open>PriceLevel\<close>

record PriceLevel =
  level_orders :: "addr list"
  total_quantity :: u64

definition new_PriceLevel :: PriceLevel where
  "new_PriceLevel = \<lparr>level_orders = [], total_quantity = 0\<rparr>"

definition level_add_order :: "(addr \<Rightarrow> Order) \<Rightarrow> PriceLevel \<Rightarrow> addr \<Rightarrow> PriceLevel" where
  "level_add_order st lvl a =
     lvl\<lparr>level_orders := level_orders lvl @ [a],
         total_quantity := total_quantity lvl + quantity (st a)\<rparr>"

definition level_remove_order :: "(addr \<Rightarrow> Order) \<Rightarrow> PriceLevel \<Rightarrow> u64 \<Rightarrow> PriceLevel" where
  "level_remove_order st lvl oid =
     (case find (\<lambda>a. order_id (st a) = oid) (level_orders lvl) of
        None \<Rightarrow> lvl
      | Some a \<Rightarrow> lvl\<lparr>level_orders := remove1 a (level_orders lvl),
                      total_quantity := total_quantity lvl - quantity (st a)\<rparr>)"

definition live :: "(addr \<Rightarrow> Order) \<Rightarrow> addr \<Rightarrow> bool" where
  "live st a = (status (st a) \<noteq> FILLED \<and> status (st a) \<noteq> CANCELLED)"

definition get_best_order :: "(addr \<Rightarrow> Order) \<Rightarrow> PriceLevel \<Rightarrow> addr option" where
  "get_best_order st lvl = find (live st) (level_orders lvl)"

definition is_empty :: "PriceLevel \<Rightarrow> bool" where
  "is_empty lvl = (total_quantity lvl = 0)"

subsection \<open>The ladders: std::map from price to level\<close>

text \<open>
  A \<open>std::map\<close> from price to PriceLevel is a list of (price, level) pairs in ascending
  price order without repeated prices. An iterator is a position in the list:
  \<open>begin()\<close> is 0, \<open>end()\<close> is the length, and \<open>erase(it)\<close> returns the same position,
  which then holds the element that followed the erased one.
\<close>

type_synonym ladder = "(u64 \<times> PriceLevel) list"

definition ladder_find :: "u64 \<Rightarrow> ladder \<Rightarrow> PriceLevel option" where
  "ladder_find p xs = map_of xs p"

fun ladder_insert :: "u64 \<Rightarrow> PriceLevel \<Rightarrow> ladder \<Rightarrow> ladder" where
  "ladder_insert p l [] = [(p, l)]"
| "ladder_insert p l ((q, m) # xs) =
     (if p < q then (p, l) # (q, m) # xs
      else if p = q then (p, l) # xs
      else (q, m) # ladder_insert p l xs)"

definition ladder_modify :: "u64 \<Rightarrow> (PriceLevel \<Rightarrow> PriceLevel) \<Rightarrow> ladder \<Rightarrow> ladder" where
  "ladder_modify p f xs = map (\<lambda>e. if fst e = p then (fst e, f (snd e)) else e) xs"

definition ladder_erase :: "nat \<Rightarrow> ladder \<Rightarrow> ladder" where
  "ladder_erase it xs = take it xs @ drop (Suc it) xs"

definition ladder_erase_key :: "u64 \<Rightarrow> ladder \<Rightarrow> ladder" where
  "ladder_erase_key p xs = filter (\<lambda>e. fst e \<noteq> p) xs"

subsection \<open>SimpleOrderBook\<close>

text \<open>
  The book's members, the store of the Order objects it reaches (\<open>store\<close>, with
  \<open>next_addr\<close> the next unused address) and the sequence of trades handed to
  \<open>notify_trade\<close> (\<open>trades\<close>, oldest first). \<open>notify_market_data\<close> hands a snapshot
  to the subscribers and changes nothing in the book; it is left out, as are the locks.
\<close>

record SimpleOrderBook =
  book_symbol_id :: u32
  bids :: ladder
  asks :: ladder
  orders :: "u64 \<rightharpoonup> addr"
  next_trade_id :: u64
  total_volume :: u64
  trade_count :: u64
  store :: "addr \<Rightarrow> Order"
  next_addr :: addr
  trades :: "Trade list"

definition new_SimpleOrderBook :: "u32 \<Rightarrow> SimpleOrderBook" where
  "new_SimpleOrderBook symbol =
     \<lparr>book_symbol_id = symbol, bids = [], asks = [], orders = Map.empty, next_trade_id = 1,
      total_volume = 0, trade_count = 0,
      store = (\<lambda>_. new_Order 0 0 BUY LIMIT 0 0 0), next_addr = 0, trades = []\<rparr>"


subsection \<open>Matching (simple\_order\_book.cpp)\<close>

text \<open>
  \<open>add_order\<close> is called with a newly created Order object, which no price level
  holds while it is matched. During matching the model carries that object's fields as
  a value (\<open>order1\<close>, \<open>ord\<close>) and writes them to its store cell when the caller sets
  the status; resting orders are read and written through the store. That the levels of a
  book built by the operations never hold the address of the object being added is
  \<open>apply_ops_well_addressed\<close> below.
\<close>

definition execute_trade ::
  "SimpleOrderBook \<Rightarrow> Order \<Rightarrow> addr \<Rightarrow> u64 \<Rightarrow> Order \<times> SimpleOrderBook" where
  "execute_trade b order1 a2 qty =
     (let order2 = store b a2;
          buy_order = (if side order1 = BUY then order1 else order2);
          sell_order = (if side order1 = SELL then order1 else order2);
          trade = \<lparr>trade_id = next_trade_id b, buy_order_id = order_id buy_order,
                   sell_order_id = order_id sell_order, trade_symbol_id = book_symbol_id b,
                   trade_quantity = qty, trade_price = price sell_order\<rparr>
      in (order1\<lparr>filled_quantity := filled_quantity order1 + qty\<rparr>,
          b\<lparr>next_trade_id := next_trade_id b + 1,
            store := (store b)(a2 := order2\<lparr>filled_quantity := filled_quantity order2 + qty\<rparr>),
            total_volume := total_volume b + qty,
            trade_count := trade_count b + 1,
            trades := trades b @ [trade]\<rparr>))"

definition set_status :: "SimpleOrderBook \<Rightarrow> addr \<Rightarrow> OrderStatus \<Rightarrow> SimpleOrderBook" where
  "set_status b a s = b\<lparr>store := (store b)(a := (store b a)\<lparr>status := s\<rparr>)\<rparr>"

definition live_count :: "(addr \<Rightarrow> Order) \<Rightarrow> PriceLevel \<Rightarrow> nat" where
  "live_count st lvl = length (filter (live st) (level_orders lvl))"

text \<open>The inner loop of \<open>try_match_order\<close>: fills against one price level.\<close>

function match_level ::
  "SimpleOrderBook \<Rightarrow> Order \<Rightarrow> PriceLevel \<Rightarrow> Order \<times> PriceLevel \<times> SimpleOrderBook" where
  "match_level b ord lvl =
     (if remaining_quantity ord > 0 then
        (case get_best_order (store b) lvl of
           None \<Rightarrow> (ord, lvl, b)
         | Some m \<Rightarrow>
             let trade_quantity = min (remaining_quantity ord) (remaining_quantity (store b m));
                 ord' = fst (execute_trade b ord m trade_quantity);
                 b' = snd (execute_trade b ord m trade_quantity)
             in if is_filled (store b' m)
                then match_level (set_status b' m FILLED) ord'
                       (level_remove_order (store b') lvl (order_id (store b' m)))
                else match_level b' ord' lvl)
      else (ord, lvl, b))"
  by pat_completeness auto


lemma find_live_Some: "find (live st) xs = Some m \<Longrightarrow> m \<in> set xs \<and> live st m"
  by (auto simp: find_Some_iff)

lemma live_count_mark:
  assumes "m \<in> set xs" "live st m" "\<not> live st' m" "\<And>a. a \<noteq> m \<Longrightarrow> live st' a = live st a"
  shows "length (filter (live st') xs) < length (filter (live st) xs)"
proof -
  have "filter (live st') xs = filter (\<lambda>a. a \<noteq> m) (filter (live st) xs)"
    using assms(3,4) by (induction xs) auto
  moreover have "m \<in> set (filter (live st) xs)" using assms(1,2) by simp
  ultimately show ?thesis
    using length_filter_less[of m "filter (live st) xs" "\<lambda>a. a \<noteq> m"] by simp
qed

lemma length_filter_remove1: "length (filter P (remove1 a xs)) \<le> length (filter P xs)"
  by (induction xs) auto

lemma live_execute_trade: "live (store (snd (execute_trade b ord m q))) = live (store b)"
  by (rule ext) (simp add: execute_trade_def live_def Let_def)

lemma remaining_after_trade:
  "\<not> is_filled (store (snd (execute_trade b ord m
        (min (remaining_quantity ord) (remaining_quantity (store b m))))) m)
   \<Longrightarrow> remaining_quantity (fst (execute_trade b ord m
        (min (remaining_quantity ord) (remaining_quantity (store b m))))) = 0"
  by (auto simp: execute_trade_def Let_def is_filled_def remaining_quantity_def min_def
           split: if_splits)

lemma live_count_remove:
  "live_count st (level_remove_order st' lvl oid) \<le> live_count st lvl"
  by (simp add: live_count_def level_remove_order_def length_filter_remove1
           split: option.splits)

lemma live_count_filled:
  assumes "get_best_order (store b) lvl = Some m"
  shows "live_count (store (set_status (snd (execute_trade b ord m q)) m FILLED)) lvl
         < live_count (store b) lvl"
proof -
  from assms have m: "m \<in> set (level_orders lvl)" "live (store b) m"
    using find_live_Some by (auto simp: get_best_order_def)
  show ?thesis unfolding live_count_def
    by (rule live_count_mark[OF m]) (auto simp: set_status_def live_def execute_trade_def Let_def)
qed

text \<open>
  Each round of the inner loop either marks a live resting order FILLED or uses up the
  incoming order, so the loop ends.
\<close>

termination match_level
proof (relation "measure (\<lambda>(b, ord, lvl).
         2 * live_count (store b) lvl + (if remaining_quantity ord > 0 then 1 else 0))",
       goal_cases)
  case 1
  show ?case by simp
next
  case (2 b ord lvl m q ord' b')
  have "live_count (store (set_status b' m FILLED))
          (level_remove_order (store b') lvl (order_id (store b' m)))
        \<le> live_count (store (set_status b' m FILLED)) lvl"
    by (rule live_count_remove)
  also have "\<dots> < live_count (store b) lvl"
    unfolding 2(5) 2(3) by (rule live_count_filled[OF 2(2)])
  finally show ?case using 2(1) by simp
next
  case (3 b ord lvl m q ord' b')
  have "remaining_quantity ord' = 0"
    using 3(6) unfolding 3(4) 3(5) 3(3) by (rule remaining_after_trade)
  moreover have "live_count (store b') lvl = live_count (store b) lvl"
    unfolding 3(5) live_count_def live_execute_trade ..
  ultimately show ?case using 3(1) by simp
qed

declare match_level.simps [simp del]

lemma match_level_side: "side (fst (match_level b ord lvl)) = side ord"
proof (induction b ord lvl rule: match_level.induct)
  case (1 b ord lvl)
  show ?case
    apply (subst match_level.simps)
    using 1 by (auto simp: Let_def execute_trade_def split: option.splits)
qed

text \<open>
  The outer loop of \<open>try_match_order\<close>. \<open>it\<close> is the iterator's position; \<open>it < length opp\<close>
  is \<open>it != opposite_side.end()\<close>.
\<close>

function match_levels ::
  "SimpleOrderBook \<Rightarrow> Order \<Rightarrow> ladder \<Rightarrow> nat \<Rightarrow> Order \<times> ladder \<times> SimpleOrderBook" where
  "match_levels b ord opp it =
     (if it < length opp \<and> remaining_quantity ord > 0 then
        (let level_price = fst (opp ! it);
            price_level = snd (opp ! it);
            price_acceptable =
              (if side ord = BUY then level_price \<le> price ord else level_price \<ge> price ord)
        in if \<not> price_acceptable then (ord, opp, b)
           else
             (let r = match_level b ord price_level;
                 ord' = fst r;
                 price_level' = fst (snd r);
                 b' = snd (snd r);
                 opp' = opp[it := (level_price, price_level')]
             in if is_empty price_level' then
                  (if ladder_erase it opp' = [] then (ord', ladder_erase it opp', b')
                   else match_levels b' ord' (ladder_erase it opp') it)
                else if side ord' = BUY then match_levels b' ord' opp' (Suc it)
                else if it = 0 then (ord', opp', b')
                else match_levels b' ord' opp' (it - 1)))
      else (ord, opp, b))"
  by pat_completeness auto
termination
  by (relation "measure (\<lambda>(b, ord, opp, it).
        if side ord = BUY then length opp - it else length opp + it)")
     (auto simp: match_level_side ladder_erase_def)

declare match_levels.simps [simp del]


definition try_match_order ::
  "SimpleOrderBook \<Rightarrow> Order \<Rightarrow> ladder \<Rightarrow> bool \<times> Order \<times> ladder \<times> SimpleOrderBook" where
  "try_match_order b ord opposite_side =
     (if opposite_side = [] then (False, ord, opposite_side, b)
      else
        let it = (if side ord = BUY then 0 else length opposite_side - 1);
            r = match_levels b ord opposite_side it
        in (filled_quantity (fst r) > 0, r))"

definition add_to_book :: "SimpleOrderBook \<Rightarrow> addr \<Rightarrow> SimpleOrderBook" where
  "add_to_book b a =
     (let ord = store b a;
          sd = (if side ord = BUY then bids b else asks b);
          sd1 = (if ladder_find (price ord) sd = None
                 then ladder_insert (price ord) new_PriceLevel sd else sd);
          sd2 = ladder_modify (price ord) (\<lambda>lvl. level_add_order (store b) lvl a) sd1
      in if side ord = BUY then b\<lparr>bids := sd2\<rparr> else b\<lparr>asks := sd2\<rparr>)"

text \<open>
  \<open>match_opposite\<close> is the common start of \<open>process_limit_order\<close> and
  \<open>process_market_order\<close>: pick the opposite side by reference, run \<open>try_match_order\<close>
  on it. It returns the result of \<open>try_match_order\<close>, the incoming order's fields and
  the book with the matched ladder in place.
\<close>

definition match_opposite :: "SimpleOrderBook \<Rightarrow> addr \<Rightarrow> bool \<times> Order \<times> SimpleOrderBook" where
  "match_opposite b a =
     (let ord = store b a;
          r = try_match_order b ord (if side ord = BUY then asks b else bids b);
          ord' = fst (snd r);
          opp' = fst (snd (snd r));
          b' = snd (snd (snd r))
      in (fst r, ord', if side ord = BUY then b'\<lparr>asks := opp'\<rparr> else b'\<lparr>bids := opp'\<rparr>))"

definition write_order :: "SimpleOrderBook \<Rightarrow> addr \<Rightarrow> Order \<Rightarrow> SimpleOrderBook" where
  "write_order b a ord = b\<lparr>store := (store b)(a := ord)\<rparr>"

definition process_limit_order :: "SimpleOrderBook \<Rightarrow> addr \<Rightarrow> SimpleOrderBook" where
  "process_limit_order b a =
     (case match_opposite b a of (matched, ord, b') \<Rightarrow>
        if matched then
          if is_filled ord then write_order b' a (ord\<lparr>status := FILLED\<rparr>)
          else add_to_book (write_order b' a (ord\<lparr>status := PARTIALLY_FILLED\<rparr>)) a
        else add_to_book (write_order b' a (ord\<lparr>status := NEW\<rparr>)) a)"

definition process_market_order :: "SimpleOrderBook \<Rightarrow> addr \<Rightarrow> SimpleOrderBook" where
  "process_market_order b a =
     (case match_opposite b a of (matched, ord, b') \<Rightarrow>
        if matched then
          if is_filled ord then write_order b' a (ord\<lparr>status := FILLED\<rparr>)
          else write_order b' a (ord\<lparr>status := PARTIALLY_FILLED\<rparr>)
        else write_order b' a (ord\<lparr>status := REJECTED\<rparr>))"

text \<open>
  \<open>add_order\<close>: the argument is the content of the new Order object; it is placed at the
  next unused address, which the index then holds. The \<open>default\<close> branch of the switch
  is for values outside the enumeration and has no counterpart.
\<close>

definition add_order :: "SimpleOrderBook \<Rightarrow> Order \<Rightarrow> bool \<times> SimpleOrderBook" where
  "add_order b ord =
     (let a = next_addr b;
          b1 = b\<lparr>orders := (orders b)(order_id ord \<mapsto> a),
                 store := (store b)(a := ord), next_addr := Suc a\<rparr>
      in case order_type ord of
           LIMIT \<Rightarrow> (True, process_limit_order b1 a)
         | MARKET \<Rightarrow> (True, process_market_order b1 a)
         | STOP \<Rightarrow> (True, process_limit_order b1 a))"

definition remove_from_book :: "SimpleOrderBook \<Rightarrow> addr \<Rightarrow> u64 \<Rightarrow> SimpleOrderBook" where
  "remove_from_book b a oid =
     (let ord = store b a;
          sd = (if side ord = BUY then bids b else asks b);
          sd' = (case ladder_find (price ord) sd of
                   None \<Rightarrow> sd
                 | Some lvl \<Rightarrow>
                     let lvl' = level_remove_order (store b) lvl oid
                     in if is_empty lvl' then ladder_erase_key (price ord) sd
                        else ladder_modify (price ord) (\<lambda>_. lvl') sd)
      in if side ord = BUY then b\<lparr>bids := sd'\<rparr> else b\<lparr>asks := sd'\<rparr>)"

definition cancel_order :: "SimpleOrderBook \<Rightarrow> u64 \<Rightarrow> bool \<times> SimpleOrderBook" where
  "cancel_order b oid =
     (case orders b oid of
        None \<Rightarrow> (False, b)
      | Some a \<Rightarrow>
          if status (store b a) = FILLED \<or> status (store b a) = CANCELLED then (False, b)
          else
            let b1 = (if filled_quantity (store b a) < quantity (store b a)
                      then remove_from_book b a oid else b)
            in (True, set_status b1 a CANCELLED))"

definition modify_order :: "SimpleOrderBook \<Rightarrow> u64 \<Rightarrow> u64 \<Rightarrow> u64 \<Rightarrow> bool \<times> SimpleOrderBook" where
  "modify_order b oid new_quantity new_price =
     (case orders b oid of
        None \<Rightarrow> (False, b)
      | Some a \<Rightarrow>
          if status (store b a) = FILLED \<or> status (store b a) = CANCELLED then (False, b)
          else
            let b1 = snd (cancel_order b oid);
                ord = store b1 a;
                new_order = new_Order oid (symbol_id ord) (side ord) (order_type ord)
                              new_quantity (if new_price > 0 then new_price else price ord) 0
            in add_order b1 new_order)"

subsection \<open>Queries\<close>

record MarketDataSnapshot =
  snapshot_symbol_id :: u32
  snapshot_timestamp :: u64
  best_bid_price :: u64
  best_bid_quantity :: u64
  best_ask_price :: u64
  best_ask_quantity :: u64
  last_trade_price :: u64
  last_trade_quantity :: u64
  volume :: u64

definition new_MarketDataSnapshot :: "u32 \<Rightarrow> MarketDataSnapshot" where
  "new_MarketDataSnapshot symbol =
     \<lparr>snapshot_symbol_id = symbol, snapshot_timestamp = 0, best_bid_price = 0,
      best_bid_quantity = 0, best_ask_price = 0, best_ask_quantity = 0,
      last_trade_price = 0, last_trade_quantity = 0, volume = 0\<rparr>"

text \<open>\<open>now\<close> is the reading of the clock that \<open>get_market_data\<close> takes.\<close>

definition get_market_data :: "SimpleOrderBook \<Rightarrow> u64 \<Rightarrow> MarketDataSnapshot" where
  "get_market_data b now =
     (let s0 = (new_MarketDataSnapshot (book_symbol_id b))\<lparr>snapshot_timestamp := now\<rparr>;
          s1 = (if bids b \<noteq> []
                then s0\<lparr>best_bid_price := fst (last (bids b)),
                        best_bid_quantity := total_quantity (snd (last (bids b)))\<rparr>
                else s0);
          s2 = (if asks b \<noteq> []
                then s1\<lparr>best_ask_price := fst (hd (asks b)),
                        best_ask_quantity := total_quantity (snd (hd (asks b)))\<rparr>
                else s1)
      in s2\<lparr>volume := total_volume b\<rparr>)"

definition get_bid_levels :: "SimpleOrderBook \<Rightarrow> u32 \<Rightarrow> (u64 \<times> u64) list" where
  "get_bid_levels b depth =
     map (\<lambda>e. (fst e, total_quantity (snd e))) (take (unat depth) (rev (bids b)))"

definition get_ask_levels :: "SimpleOrderBook \<Rightarrow> u32 \<Rightarrow> (u64 \<times> u64) list" where
  "get_ask_levels b depth =
     map (\<lambda>e. (fst e, total_quantity (snd e))) (take (unat depth) (asks b))"


subsection \<open>OrderBookSimulator\<close>

text \<open>
  The simulator keeps one book per symbol. Its books are of class \<open>OrderBook\<close>, which
  declares the members of \<open>SimpleOrderBook\<close> and whose member functions are defined in a
  file that is not among the sources; the books of the model are \<open>SimpleOrderBook\<close>s.
  The worker threads and the latency counters are left out. \<open>submit_order\<close> is the only
  member that adds a book.
\<close>

record OrderBookSimulator =
  order_books :: "u32 \<rightharpoonup> SimpleOrderBook"
  next_order_id :: u64

definition new_OrderBookSimulator :: OrderBookSimulator where
  "new_OrderBookSimulator = \<lparr>order_books = Map.empty, next_order_id = 1\<rparr>"

definition submit_order ::
  "OrderBookSimulator \<Rightarrow> u32 \<Rightarrow> Side \<Rightarrow> OrderType \<Rightarrow> u64 \<Rightarrow> u64 \<Rightarrow> u64
     \<Rightarrow> u64 \<times> OrderBookSimulator" where
  "submit_order sim symbol s type qty px stop_px =
     (let oid = next_order_id sim;
          ord = new_Order oid symbol s type qty px stop_px;
          book = (case order_books sim symbol of
                    None \<Rightarrow> new_SimpleOrderBook symbol
                  | Some bk \<Rightarrow> bk)
      in (oid, sim\<lparr>order_books := (order_books sim)(symbol \<mapsto> snd (add_order book ord)),
                    next_order_id := oid + 1\<rparr>))"

definition simulator_get_market_data ::
  "OrderBookSimulator \<Rightarrow> u32 \<Rightarrow> u64 \<Rightarrow> MarketDataSnapshot" where
  "simulator_get_market_data sim symbol now =
     (case order_books sim symbol of
        Some bk \<Rightarrow> get_market_data bk now
      | None \<Rightarrow> new_MarketDataSnapshot symbol)"

definition simulator_get_bid_levels ::
  "OrderBookSimulator \<Rightarrow> u32 \<Rightarrow> u32 \<Rightarrow> (u64 \<times> u64) list" where
  "simulator_get_bid_levels sim symbol depth =
     (case order_books sim symbol of
        Some bk \<Rightarrow> get_bid_levels bk depth
      | None \<Rightarrow> [])"

definition simulator_get_ask_levels ::
  "OrderBookSimulator \<Rightarrow> u32 \<Rightarrow> u32 \<Rightarrow> (u64 \<times> u64) list" where
  "simulator_get_ask_levels sim symbol depth =
     (case order_books sim symbol of
        Some bk \<Rightarrow> get_ask_levels bk depth
      | None \<Rightarrow> [])"

section \<open>Sequences of operations and scenarios\<close>

text \<open>\<open>add_orders b os\<close> submits the orders of \<open>os\<close> to the book one after the other.\<close>

definition add_orders :: "SimpleOrderBook \<Rightarrow> Order list \<Rightarrow> SimpleOrderBook" where
  "add_orders b os = foldl (\<lambda>bk ord. snd (add_order bk ord)) b os"

text \<open>The three operations on a book, and a book after a sequence of them.\<close>

datatype operation = Add Order | Cancel u64 | Modify u64 u64 u64

fun apply_op :: "SimpleOrderBook \<Rightarrow> operation \<Rightarrow> SimpleOrderBook" where
  "apply_op b (Add ord) = snd (add_order b ord)"
| "apply_op b (Cancel oid) = snd (cancel_order b oid)"
| "apply_op b (Modify oid new_quantity new_price) = snd (modify_order b oid new_quantity new_price)"

definition apply_ops :: "SimpleOrderBook \<Rightarrow> operation list \<Rightarrow> SimpleOrderBook" where
  "apply_ops b ops = foldl apply_op b ops"

text \<open>
  The quantity still open at a price level: the sum of the remaining quantities of its
  orders that are neither FILLED nor CANCELLED.
\<close>

definition live_remaining :: "(addr \<Rightarrow> Order) \<Rightarrow> PriceLevel \<Rightarrow> u64" where
  "live_remaining st lvl =
     sum_list (map (\<lambda>a. remaining_quantity (st a)) (filter (live st) (level_orders lvl)))"

text \<open>The ladder of one side: \<open>(side == Side::BUY) ? bids_ : asks_\<close>.\<close>

definition side_ladder :: "SimpleOrderBook \<Rightarrow> Side \<Rightarrow> ladder" where
  "side_ladder b s = (if s = BUY then bids b else asks b)"

text \<open>The arguments of one \<open>submit_order\<close> call, and a simulator after a sequence of calls.\<close>

record Submission =
  sub_symbol :: u32
  sub_side :: Side
  sub_type :: OrderType
  sub_quantity :: u64
  sub_price :: u64
  sub_stop_price :: u64

definition submit_all :: "OrderBookSimulator \<Rightarrow> Submission list \<Rightarrow> OrderBookSimulator" where
  "submit_all sim subs =
     foldl (\<lambda>sm r. snd (submit_order sm (sub_symbol r) (sub_side r) (sub_type r)
                           (sub_quantity r) (sub_price r) (sub_stop_price r))) sim subs"

text \<open>
  \<open>well_addressed b\<close>: every address in a price level of \<open>b\<close> is below \<open>next_addr b\<close>,
  that is, it is the address of an order that was given to the book.
\<close>

definition ladder_below :: "addr \<Rightarrow> ladder \<Rightarrow> bool" where
  "ladder_below n xs = list_all (\<lambda>e. list_all (\<lambda>a. a < n) (level_orders (snd e))) xs"

definition well_addressed :: "SimpleOrderBook \<Rightarrow> bool" where
  "well_addressed b = (ladder_below (next_addr b) (bids b) \<and> ladder_below (next_addr b) (asks b))"

text \<open>
  \<open>counted b b'\<close>: \<open>b'\<close> has the trades of \<open>b\<close> and then some more, numbered one by one
  from \<open>next_trade_id b\<close>, and its three counters have advanced by their number, their
  number and their total quantity.
\<close>

definition counted :: "SimpleOrderBook \<Rightarrow> SimpleOrderBook \<Rightarrow> bool" where
  "counted b b' =
     (\<exists>ts. trades b' = trades b @ ts
        \<and> map trade_id ts = map (\<lambda>i. next_trade_id b + of_nat i) [0..<length ts]
        \<and> next_trade_id b' = next_trade_id b + of_nat (length ts)
        \<and> trade_count b' = trade_count b + of_nat (length ts)
        \<and> total_volume b' = total_volume b + sum_list (map trade_quantity ts))"

text \<open>
  The FIFO scenario: two buys at 5000 (ids 1 and 2, quantities 1000 and 2000), then a
  sell of 1500 at 5000 (id 3). In every scenario the book is new, for symbol 100, and the
  Order objects are at addresses 0, 1, 2, ... in the order of submission.
\<close>

definition fifo_book :: SimpleOrderBook where
  "fifo_book = add_orders (new_SimpleOrderBook 100)
     [new_Order 1 100 BUY LIMIT 1000 5000 0,
      new_Order 2 100 BUY LIMIT 2000 5000 0,
      new_Order 3 100 SELL LIMIT 1500 5000 0]"

text \<open>A buy resting at 5100, then a sell with limit 5000: the seller is the aggressor.\<close>

definition sell_aggressor_book :: SimpleOrderBook where
  "sell_aggressor_book = add_orders (new_SimpleOrderBook 100)
     [new_Order 1 100 BUY LIMIT 10 5100 0,
      new_Order 2 100 SELL LIMIT 10 5000 0]"

text \<open>Two bid levels, 5100 and 5000, then a sell of 20 with limit 5000.\<close>

definition two_bid_levels_book :: SimpleOrderBook where
  "two_bid_levels_book = add_orders (new_SimpleOrderBook 100)
     [new_Order 1 100 BUY LIMIT 10 5100 0,
      new_Order 2 100 BUY LIMIT 10 5000 0,
      new_Order 3 100 SELL LIMIT 20 5000 0]"

text \<open>
  The repository's test \<open>test_price_priority\<close>: three asks, then a market buy, whose
  price field is 0.
\<close>

definition market_buy_book :: SimpleOrderBook where
  "market_buy_book = add_orders (new_SimpleOrderBook 100)
     [new_Order 1 100 SELL LIMIT 1000 5100 0,
      new_Order 2 100 SELL LIMIT 1000 5000 0,
      new_Order 3 100 SELL LIMIT 1000 5200 0,
      new_Order 4 100 BUY MARKET 1000 0 0]"

text \<open>
  The demo of \<open>SimpleOrderBook\<close>: two asks and two bids, then the market buy of 800
  (price field 0) that its comment announces as ``a market order that will match''.
\<close>

definition demo_book :: SimpleOrderBook where
  "demo_book = add_orders (new_SimpleOrderBook 100)
     [new_Order 1 100 SELL LIMIT 1000 5005 0,
      new_Order 2 100 SELL LIMIT 2000 5010 0,
      new_Order 3 100 BUY LIMIT 1500 4995 0,
      new_Order 4 100 BUY LIMIT 1000 4990 0,
      new_Order 5 100 BUY MARKET 800 0 0]"

text \<open>Two bid levels, then a market sell of 20.\<close>

definition market_sell_book :: SimpleOrderBook where
  "market_sell_book = add_orders (new_SimpleOrderBook 100)
     [new_Order 1 100 BUY LIMIT 10 5100 0,
      new_Order 2 100 BUY LIMIT 10 5000 0,
      new_Order 3 100 SELL MARKET 20 0 0]"

text \<open>
  The repository's test \<open>test_partial_fill\<close>: a sell of 5000, then a buy of 2000, both at
  5000.
\<close>

definition partial_fill_book :: SimpleOrderBook where
  "partial_fill_book = add_orders (new_SimpleOrderBook 100)
     [new_Order 1 100 SELL LIMIT 5000 5000 0,
      new_Order 2 100 BUY LIMIT 2000 5000 0]"

text \<open>
  Asks of 500 at 5100 and 400 at 5000, then a buy of 1000 with limit 5000 (id 3), which
  fills 400 and rests.
\<close>

definition partly_filled_buy_book :: SimpleOrderBook where
  "partly_filled_buy_book = add_orders (new_SimpleOrderBook 100)
     [new_Order 1 100 SELL LIMIT 500 5100 0,
      new_Order 2 100 SELL LIMIT 400 5000 0,
      new_Order 3 100 BUY LIMIT 1000 5000 0]"

text \<open>A sell of 400 at 5000, then a buy of 1000 at 5000 (id 2), which fills 400 and rests.\<close>

definition partly_filled_resting_book :: SimpleOrderBook where
  "partly_filled_resting_book = add_orders (new_SimpleOrderBook 100)
     [new_Order 1 100 SELL LIMIT 400 5000 0,
      new_Order 2 100 BUY LIMIT 1000 5000 0]"

text \<open>The repository's test \<open>test_order_cancellation\<close>: one buy of 1000 at 5000.\<close>

definition one_bid_book :: SimpleOrderBook where
  "one_bid_book = add_orders (new_SimpleOrderBook 100) [new_Order 1 100 BUY LIMIT 1000 5000 0]"

text \<open>One limit buy of quantity 0 at 5000.\<close>

definition zero_quantity_book :: SimpleOrderBook where
  "zero_quantity_book = add_orders (new_SimpleOrderBook 100) [new_Order 1 100 BUY LIMIT 0 5000 0]"

text \<open>One market buy into an empty book.\<close>

definition rejected_market_book :: SimpleOrderBook where
  "rejected_market_book =
     add_orders (new_SimpleOrderBook 100) [new_Order 1 100 BUY MARKET 1000 0 0]"

text \<open>
  A simulator after a sell and a buy of 1000 at 5000 for symbol 100, which trade in full:
  the book of symbol 100 is empty again, and symbol 101 was never used.
\<close>

definition one_symbol_simulator :: OrderBookSimulator where
  "one_symbol_simulator = submit_all new_OrderBookSimulator
     [\<lparr>sub_symbol = 100, sub_side = SELL, sub_type = LIMIT, sub_quantity = 1000,
       sub_price = 5000, sub_stop_price = 0\<rparr>,
      \<lparr>sub_symbol = 100, sub_side = BUY, sub_type = LIMIT, sub_quantity = 1000,
       sub_price = 5000, sub_stop_price = 0\<rparr>]"

section \<open>Properties of the operations\<close>

lemma get_best_order_live:
  "get_best_order st lvl = Some m \<Longrightarrow> live st m"
  using find_live_Some by (auto simp: get_best_order_def)

lemma match_level_preserves:
  assumes trade: "\<And>b ord m. J b ord \<Longrightarrow> live (store b) m \<Longrightarrow> 0 < remaining_quantity ord \<Longrightarrow>
             J (snd (execute_trade b ord m (min (remaining_quantity ord) (remaining_quantity (store b m)))))
               (fst (execute_trade b ord m (min (remaining_quantity ord) (remaining_quantity (store b m)))))"
      and mark: "\<And>b ord m. J b ord \<Longrightarrow> live (store b) m \<Longrightarrow> J (set_status b m FILLED) ord"
  shows "J b ord \<Longrightarrow> J (snd (snd (match_level b ord lvl))) (fst (match_level b ord lvl))"
proof (induction b ord lvl rule: match_level.induct)
  case (1 b ord lvl)
  show ?case
  proof (cases "0 < remaining_quantity ord")
    case False
    then show ?thesis using "1.prems" by (subst (1 2) match_level.simps) simp
  next
    case pos: True
    show ?thesis
    proof (cases "get_best_order (store b) lvl")
      case None
      then show ?thesis using "1.prems" pos by (subst (1 2) match_level.simps) simp
    next
      case (Some m)
      define q where "q = min (remaining_quantity ord) (remaining_quantity (store b m))"
      define ord' where "ord' = fst (execute_trade b ord m q)"
      define b' where "b' = snd (execute_trade b ord m q)"
      have lm: "live (store b) m" using Some by (rule get_best_order_live)
      have J': "J b' ord'" unfolding b'_def ord'_def q_def by (rule trade[OF "1.prems" lm pos])
      have lm': "live (store b') m" using lm by (simp add: b'_def live_execute_trade)
      show ?thesis
      proof (cases "is_filled (store b' m)")
        case True
        have "J (set_status b' m FILLED) ord'" by (rule mark[OF J' lm'])
        from "1.IH"(1)[OF pos Some q_def ord'_def b'_def True this]
        show ?thesis using pos Some True
          by (subst (1 2) match_level.simps) (simp add: Let_def q_def[symmetric] ord'_def[symmetric] b'_def[symmetric])
      next
        case False
        from "1.IH"(2)[OF pos Some q_def ord'_def b'_def False J']
        show ?thesis using pos Some False
          by (subst (1 2) match_level.simps) (simp add: Let_def q_def[symmetric] ord'_def[symmetric] b'_def[symmetric])
      qed
    qed
  qed
qed

lemma match_levels_preserves:
  assumes trade: "\<And>b ord m. J b ord \<Longrightarrow> live (store b) m \<Longrightarrow> 0 < remaining_quantity ord \<Longrightarrow>
             J (snd (execute_trade b ord m (min (remaining_quantity ord) (remaining_quantity (store b m)))))
               (fst (execute_trade b ord m (min (remaining_quantity ord) (remaining_quantity (store b m)))))"
      and mark: "\<And>b ord m. J b ord \<Longrightarrow> live (store b) m \<Longrightarrow> J (set_status b m FILLED) ord"
  shows "J b ord \<Longrightarrow> J (snd (snd (match_levels b ord opp it))) (fst (match_levels b ord opp it))"
proof (induction b ord opp it rule: match_levels.induct)
  case (1 b ord opp it)
  define r where "r = match_level b ord (snd (opp ! it))"
  have Jr: "J (snd (snd r)) (fst r)"
    unfolding r_def by (rule match_level_preserves[OF trade mark "1.prems"])
  show ?case
  proof (cases "it < length opp \<and> 0 < remaining_quantity ord")
    case False
    then show ?thesis using "1.prems" by (subst (1 2) match_levels.simps) auto
  next
    case go: True
    show ?thesis
    proof (cases "if side ord = BUY then fst (opp ! it) \<le> price ord else fst (opp ! it) \<ge> price ord")
      case False
      then show ?thesis using "1.prems" go by (subst (1 2) match_levels.simps) (simp add: Let_def)
    next
      case ok: True
      note IH = "1.IH"[OF go refl refl refl _ r_def refl refl refl refl]
      show ?thesis
        apply (subst (1 2) match_levels.simps)
        using go ok Jr IH
        by (auto simp: Let_def r_def[symmetric])
    qed
  qed
qed

lemma match_opposite_preserves:
  assumes trade: "\<And>b ord m. J b ord \<Longrightarrow> live (store b) m \<Longrightarrow> 0 < remaining_quantity ord \<Longrightarrow>
             J (snd (execute_trade b ord m (min (remaining_quantity ord) (remaining_quantity (store b m)))))
               (fst (execute_trade b ord m (min (remaining_quantity ord) (remaining_quantity (store b m)))))"
      and mark: "\<And>b ord m. J b ord \<Longrightarrow> live (store b) m \<Longrightarrow> J (set_status b m FILLED) ord"
      and ladders: "\<And>b ord l. J b ord \<Longrightarrow> J (b\<lparr>asks := l\<rparr>) ord \<and> J (b\<lparr>bids := l\<rparr>) ord"
      and start: "J b (store b a)"
  shows "J (snd (snd (match_opposite b a))) (fst (snd (match_opposite b a)))"
proof -
  have "J (snd (snd (match_levels b (store b a) opp it))) (fst (match_levels b (store b a) opp it))"
    for opp it
    by (rule match_levels_preserves[OF trade mark start])
  then show ?thesis
    using start ladders by (simp add: match_opposite_def try_match_order_def Let_def)
qed

text \<open>What matching leaves alone: every record that is FILLED or CANCELLED.\<close>

lemma match_opposite_frame:
  assumes "\<not> live (store b) x" "x \<noteq> a"
  shows "store (snd (snd (match_opposite b a))) x = store b x"
proof -
  define J where "J = (\<lambda>(bk::SimpleOrderBook) (ord::Order). \<not> live (store bk) x \<and> store bk x = store b x)"
  have "J (snd (snd (match_opposite b a))) (fst (snd (match_opposite b a)))"
  proof (rule match_opposite_preserves)
    show "J b (store b a)" using assms by (simp add: J_def)
  qed (auto simp: J_def execute_trade_def set_status_def live_def Let_def)
  then show ?thesis by (simp add: J_def)
qed

lemma match_opposite_fields:
  "next_addr (snd (snd (match_opposite b a))) = next_addr b \<and>
   orders (snd (snd (match_opposite b a))) = orders b \<and>
   book_symbol_id (snd (snd (match_opposite b a))) = book_symbol_id b"
proof -
  define J where "J = (\<lambda>(bk::SimpleOrderBook) (ord::Order).
     next_addr bk = next_addr b \<and> orders bk = orders b \<and> book_symbol_id bk = book_symbol_id b)"
  have "J (snd (snd (match_opposite b a))) (fst (snd (match_opposite b a)))"
    by (rule match_opposite_preserves) (auto simp: J_def execute_trade_def set_status_def Let_def)
  then show ?thesis by (simp add: J_def)
qed

lemma match_opposite_fills:
  "\<exists>ts. trades (snd (snd (match_opposite b a))) = trades b @ ts \<and>
        fst (snd (match_opposite b a)) =
          (store b a)\<lparr>filled_quantity := filled_quantity (store b a) + sum_list (map trade_quantity ts)\<rparr>"
proof -
  define J where "J = (\<lambda>(bk::SimpleOrderBook) (ord::Order).
     \<exists>ts. trades bk = trades b @ ts \<and>
        ord = (store b a)\<lparr>filled_quantity := filled_quantity (store b a) + sum_list (map trade_quantity ts)\<rparr>)"
  have "J (snd (snd (match_opposite b a))) (fst (snd (match_opposite b a)))"
  proof (rule match_opposite_preserves)
    show "J b (store b a)" by (simp add: J_def)
  next
    fix bk ord m
    assume "J bk ord"
    then obtain ts where ts: "trades bk = trades b @ ts"
      "ord = (store b a)\<lparr>filled_quantity := filled_quantity (store b a) + sum_list (map trade_quantity ts)\<rparr>"
      by (auto simp: J_def)
    show "J (set_status bk m FILLED) ord" using ts by (auto simp: J_def set_status_def)
    define q where "q = min (remaining_quantity ord) (remaining_quantity (store bk m))"
    show "J (snd (execute_trade bk ord m q)) (fst (execute_trade bk ord m q))"
      unfolding J_def
      apply (rule exI[of _ "ts @ [last (trades (snd (execute_trade bk ord m q)))]"])
      using ts by (simp add: execute_trade_def Let_def add.assoc)
  next
    fix bk ord l
    assume "J bk ord"
    then show "J (bk\<lparr>asks := l\<rparr>) ord \<and> J (bk\<lparr>bids := l\<rparr>) ord" by (simp add: J_def)
  qed
  then show ?thesis by (simp add: J_def)
qed

lemma add_to_book_same [simp]:
  "store (add_to_book b a) = store b" "trades (add_to_book b a) = trades b"
  "next_addr (add_to_book b a) = next_addr b" "orders (add_to_book b a) = orders b"
  by (simp_all add: add_to_book_def Let_def)

lemma remove_from_book_same [simp]:
  "store (remove_from_book b a oid) = store b" "trades (remove_from_book b a oid) = trades b"
  "next_addr (remove_from_book b a oid) = next_addr b" "orders (remove_from_book b a oid) = orders b"
  by (simp_all add: remove_from_book_def Let_def)

lemma write_order_same [simp]:
  "store (write_order b a ord) = (store b)(a := ord)" "trades (write_order b a ord) = trades b"
  "next_addr (write_order b a ord) = next_addr b" "orders (write_order b a ord) = orders b"
  "bids (write_order b a ord) = bids b" "asks (write_order b a ord) = asks b"
  by (simp_all add: write_order_def)

lemma process_limit_order_frame:
  assumes "\<not> live (store b) x" "x \<noteq> a"
  shows "store (process_limit_order b a) x = store b x"
  using match_opposite_frame[OF assms] assms(2)
  by (auto simp: process_limit_order_def split: prod.splits)

lemma process_market_order_frame:
  assumes "\<not> live (store b) x" "x \<noteq> a"
  shows "store (process_market_order b a) x = store b x"
  using match_opposite_frame[OF assms] assms(2)
  by (auto simp: process_market_order_def split: prod.splits)

lemma process_order_next_addr:
  "next_addr (process_limit_order b a) = next_addr b"
  "next_addr (process_market_order b a) = next_addr b"
  using match_opposite_fields[of b a]
  by (auto simp: process_limit_order_def process_market_order_def split: prod.splits)

lemma add_order_frame:
  assumes "x < next_addr b" "\<not> live (store b) x"
  shows "store (snd (add_order b ord)) x = store b x"
proof -
  define b1 where "b1 = b\<lparr>orders := (orders b)(order_id ord \<mapsto> next_addr b),
                 store := (store b)(next_addr b := ord), next_addr := Suc (next_addr b)\<rparr>"
  have 1: "\<not> live (store b1) x" "x \<noteq> next_addr b" "store b1 x = store b x"
    using assms by (auto simp: b1_def live_def)
  show ?thesis
    using process_limit_order_frame[OF 1(1,2)] process_market_order_frame[OF 1(1,2)] 1(3)
    by (simp add: add_order_def Let_def b1_def[symmetric] split: OrderType.splits)
qed

lemma add_order_next_addr: "next_addr (snd (add_order b ord)) = Suc (next_addr b)"
  by (simp add: add_order_def Let_def process_order_next_addr split: OrderType.splits)

lemma cancel_order_frame:
  assumes "\<not> live (store b) x"
  shows "store (snd (cancel_order b oid)) x = store b x"
  using assms by (auto simp: cancel_order_def set_status_def live_def Let_def split: option.splits)

lemma cancel_order_next_addr: "next_addr (snd (cancel_order b oid)) = next_addr b"
  by (auto simp: cancel_order_def set_status_def Let_def split: option.splits)

lemma modify_order_frame:
  assumes "x < next_addr b" "\<not> live (store b) x"
  shows "store (snd (modify_order b oid q p)) x = store b x"
proof -
  define b1 where "b1 = snd (cancel_order b oid)"
  have 1: "x < next_addr b1" "\<not> live (store b1) x" "store b1 x = store b x"
    using assms cancel_order_frame[OF assms(2), of oid]
    by (simp_all add: b1_def cancel_order_next_addr live_def)
  show ?thesis
    using add_order_frame[OF 1(1,2)] 1(3)
    by (simp add: modify_order_def Let_def b1_def[symmetric] split: option.splits)
qed

lemma modify_order_next_addr: "next_addr b \<le> next_addr (snd (modify_order b oid q p))"
  by (simp add: modify_order_def Let_def add_order_next_addr cancel_order_next_addr split: option.splits)

lemma apply_op_frame:
  assumes "x < next_addr b" "\<not> live (store b) x"
  shows "store (apply_op b opn) x = store b x \<and> x < next_addr (apply_op b opn)"
proof (cases opn)
  case (Add ord)
  then show ?thesis using add_order_frame[OF assms] assms(1) by (simp add: add_order_next_addr)
next
  case (Cancel oid)
  then show ?thesis using cancel_order_frame[OF assms(2)] assms(1) by (simp add: cancel_order_next_addr)
next
  case (Modify oid q p)
  then show ?thesis using modify_order_frame[OF assms] assms(1) modify_order_next_addr[of b oid q p]
    by simp
qed

lemma apply_ops_frame:
  assumes "x < next_addr b" "\<not> live (store b) x"
  shows "store (apply_ops b ops) x = store b x"
  using assms
proof (induction ops arbitrary: b)
  case Nil
  then show ?case by (simp add: apply_ops_def)
next
  case (Cons opn ops)
  have 1: "store (apply_op b opn) x = store b x" "x < next_addr (apply_op b opn)"
    using apply_op_frame[OF Cons.prems] by simp_all
  have 2: "\<not> live (store (apply_op b opn)) x" using Cons.prems(2) 1(1) by (simp add: live_def)
  show ?case using Cons.IH[OF 1(2) 2] 1(1) by (simp add: apply_ops_def)
qed

lemma ladder_find_insert:
  "ladder_find p' (ladder_insert p l xs) = (if p' = p then Some l else ladder_find p' xs)"
  by (induction xs) (auto simp: ladder_find_def)

lemma ladder_find_modify:
  "ladder_find p' (ladder_modify p f xs) =
     (if p' = p then map_option f (ladder_find p xs) else ladder_find p' xs)"
  by (induction xs) (auto simp: ladder_find_def ladder_modify_def)


lemma match_levels_nothing:
  "remaining_quantity ord = 0 \<Longrightarrow> match_levels b ord opp it = (ord, opp, b)"
  by (subst match_levels.simps) simp

lemma match_opposite_nothing:
  assumes "remaining_quantity (store b a) = 0" "filled_quantity (store b a) = 0"
  shows "match_opposite b a = (False, store b a, b)"
  using assms by (simp add: match_opposite_def try_match_order_def Let_def match_levels_nothing)

lemma side_ladder_add_to_book:
  "ladder_find p (side_ladder (add_to_book b a) s) =
     (if s = side (store b a) \<and> p = price (store b a)
      then Some (level_add_order (store b)
                  (case ladder_find p (side_ladder b s) of None \<Rightarrow> new_PriceLevel | Some lvl \<Rightarrow> lvl) a)
      else ladder_find p (side_ladder b s))"
  by (cases s; cases "side (store b a)")
     (auto simp: add_to_book_def side_ladder_def Let_def ladder_find_modify ladder_find_insert)

lemma process_zero_quantity:
  assumes "remaining_quantity (store b a) = 0" "filled_quantity (store b a) = 0"
  shows "process_limit_order b a = add_to_book (write_order b a ((store b a)\<lparr>status := NEW\<rparr>)) a"
    and "process_market_order b a = write_order b a ((store b a)\<lparr>status := REJECTED\<rparr>)"
  using match_opposite_nothing[OF assms]
  by (simp_all add: process_limit_order_def process_market_order_def)


lemma side_ladder_set_status [simp]: "side_ladder (set_status b a st) s = side_ladder b s"
  by (simp add: side_ladder_def set_status_def)

lemma word_fill_bound:
  fixes f Q q :: u64
  assumes "f \<le> Q" "q \<le> Q - f"
  shows "f + q \<le> Q"
  using assms by unat_arith

lemma match_opposite_bound:
  assumes "filled_quantity (store b a) \<le> quantity (store b a)"
  shows "filled_quantity (fst (snd (match_opposite b a))) \<le> quantity (fst (snd (match_opposite b a)))"
proof -
  define J where "J = (\<lambda>(bk::SimpleOrderBook) (ord::Order). filled_quantity ord \<le> quantity ord)"
  have "J (snd (snd (match_opposite b a))) (fst (snd (match_opposite b a)))"
  proof (rule match_opposite_preserves)
    show "J b (store b a)" using assms by (simp add: J_def)
  next
    fix bk ord m
    assume j: "J bk ord"
    then show "J (set_status bk m FILLED) ord" by (simp add: J_def)
    define q where "q = min (remaining_quantity ord) (remaining_quantity (store bk m))"
    have "q \<le> quantity ord - filled_quantity ord" by (simp add: q_def remaining_quantity_def)
    then show "J (snd (execute_trade bk ord m q)) (fst (execute_trade bk ord m q))"
      using j by (simp add: J_def execute_trade_def Let_def word_fill_bound)
  next
    fix bk ord l
    assume "J bk ord"
    then show "J (bk\<lparr>asks := l\<rparr>) ord \<and> J (bk\<lparr>bids := l\<rparr>) ord" by (simp add: J_def)
  qed
  then show ?thesis by (simp add: J_def)
qed

lemma add_order_record:
  "\<exists>ts st. trades (snd (add_order b ord)) = trades b @ ts
     \<and> store (snd (add_order b ord)) (next_addr b) =
         ord\<lparr>filled_quantity := filled_quantity ord + sum_list (map trade_quantity ts), status := st\<rparr>
     \<and> orders (snd (add_order b ord)) (order_id ord) = Some (next_addr b)
     \<and> (filled_quantity ord \<le> quantity ord \<longrightarrow>
          filled_quantity ord + sum_list (map trade_quantity ts) \<le> quantity ord)"
proof -
  define a where "a = next_addr b"
  define b1 where "b1 = b\<lparr>orders := (orders b)(order_id ord \<mapsto> a),
                 store := (store b)(a := ord), next_addr := Suc a\<rparr>"
  obtain ts where ts: "trades (snd (snd (match_opposite b1 a))) = trades b1 @ ts"
    "fst (snd (match_opposite b1 a)) =
       (store b1 a)\<lparr>filled_quantity := filled_quantity (store b1 a) + sum_list (map trade_quantity ts)\<rparr>"
    using match_opposite_fills[of b1 a] by blast
  obtain m ord' b' where mo: "match_opposite b1 a = (m, ord', b')" by (cases "match_opposite b1 a")
  have 1: "trades b' = trades b @ ts"
    "ord' = ord\<lparr>filled_quantity := filled_quantity ord + sum_list (map trade_quantity ts)\<rparr>"
    using ts mo by (simp_all add: b1_def)
  have 2: "orders b' = (orders b)(order_id ord \<mapsto> a)"
    using match_opposite_fields[of b1 a] mo by (simp add: b1_def)
  have 3: "filled_quantity ord \<le> quantity ord \<longrightarrow>
          filled_quantity ord + sum_list (map trade_quantity ts) \<le> quantity ord"
    using match_opposite_bound[of b1 a] mo 1 by (simp add: b1_def)
  show ?thesis
    unfolding add_order_def Let_def a_def[symmetric] b1_def[symmetric]
    apply (rule exI[of _ ts])
    using 1 2 3
    by (cases "order_type ord")
       (auto simp: process_limit_order_def process_market_order_def mo)
qed

lemma cancel_order_same:
  "trades (snd (cancel_order b oid)) = trades b" "orders (snd (cancel_order b oid)) = orders b"
  by (auto simp: cancel_order_def set_status_def Let_def split: option.splits)

subsection \<open>The levels hold known orders only\<close>

text \<open>
  No operation puts an address into a level that the book has not handed out before: in
  a book built from a new one by add, cancel and modify operations the next unused
  address is in no level, which is what the carrying of the incoming order as a value
  during matching relies on.
\<close>

lemma level_remove_order_subset:
  "set (level_orders (level_remove_order st lvl oid)) \<subseteq> set (level_orders lvl)"
  using set_remove1_subset by (fastforce simp: level_remove_order_def split: option.splits)

lemma match_level_subset:
  "set (level_orders (fst (snd (match_level b ord lvl)))) \<subseteq> set (level_orders lvl)"
proof (induction b ord lvl rule: match_level.induct)
  case (1 b ord lvl)
  show ?case
  proof (cases "0 < remaining_quantity ord")
    case False
    then show ?thesis by (subst match_level.simps) simp
  next
    case pos: True
    show ?thesis
    proof (cases "get_best_order (store b) lvl")
      case None
      then show ?thesis using pos by (subst match_level.simps) simp
    next
      case (Some m)
      define q where "q = min (remaining_quantity ord) (remaining_quantity (store b m))"
      define ord' where "ord' = fst (execute_trade b ord m q)"
      define b' where "b' = snd (execute_trade b ord m q)"
      show ?thesis
      proof (cases "is_filled (store b' m)")
        case True
        from "1.IH"(1)[OF pos Some q_def ord'_def b'_def True]
        have "set (level_orders (fst (snd (match_level (set_status b' m FILLED) ord'
                 (level_remove_order (store b') lvl (order_id (store b' m)))))))
              \<subseteq> set (level_orders lvl)"
          using level_remove_order_subset[of "store b'" lvl "order_id (store b' m)"] by blast
        then show ?thesis using pos Some True
          by (subst match_level.simps)
             (simp add: Let_def q_def[symmetric] ord'_def[symmetric] b'_def[symmetric])
      next
        case False
        from "1.IH"(2)[OF pos Some q_def ord'_def b'_def False]
        show ?thesis using pos Some False
          by (subst match_level.simps)
             (simp add: Let_def q_def[symmetric] ord'_def[symmetric] b'_def[symmetric])
      qed
    qed
  qed
qed

lemma ladder_below_update:
  assumes "ladder_below n xs" "it < length xs" "set (level_orders l) \<subseteq> set (level_orders (snd (xs ! it)))"
  shows "ladder_below n (xs[it := (p, l)])"
proof -
  have "list_all (\<lambda>a. a < n) (level_orders (snd (xs ! it)))"
    using assms(1,2) by (simp add: ladder_below_def list_all_length)
  then have "list_all (\<lambda>a. a < n) (level_orders l)"
    using assms(3) by (auto simp: list_all_iff)
  then show ?thesis
    using assms(1,2) by (simp add: ladder_below_def list_all_length nth_list_update)
qed

lemma ladder_below_erase: "ladder_below n xs \<Longrightarrow> ladder_below n (ladder_erase it xs)"
  by (auto simp: ladder_below_def ladder_erase_def list_all_iff dest: in_set_takeD in_set_dropD)

lemma match_levels_below:
  "ladder_below n opp \<Longrightarrow> ladder_below n (fst (snd (match_levels b ord opp it)))"
proof (induction b ord opp it rule: match_levels.induct)
  case (1 b ord opp it)
  define r where "r = match_level b ord (snd (opp ! it))"
  show ?case
  proof (cases "it < length opp \<and> 0 < remaining_quantity ord")
    case False
    then show ?thesis using "1.prems" by (subst match_levels.simps) auto
  next
    case go: True
    show ?thesis
    proof (cases "if side ord = BUY then fst (opp ! it) \<le> price ord else fst (opp ! it) \<ge> price ord")
      case False
      then show ?thesis using "1.prems" go by (subst match_levels.simps) (simp add: Let_def)
    next
      case ok: True
      have u: "ladder_below n (opp[it := (fst (opp ! it), fst (snd r))])"
        using ladder_below_update[OF "1.prems"] go match_level_subset[of b ord "snd (opp ! it)"]
        by (simp add: r_def)
      note e = ladder_below_erase[OF u, of it]
      note IH = "1.IH"[OF go refl refl refl _ r_def refl refl refl refl]
      have IH1: "is_empty (fst (snd r)) \<Longrightarrow> ladder_erase it (opp[it := (fst (opp ! it), fst (snd r))]) \<noteq> [] \<Longrightarrow>
         ladder_below n (fst (snd (match_levels (snd (snd r)) (fst r)
            (ladder_erase it (opp[it := (fst (opp ! it), fst (snd r))])) it)))"
        using IH(1) ok e by simp
      have IH2: "\<not> is_empty (fst (snd r)) \<Longrightarrow> side (fst r) = BUY \<Longrightarrow>
         ladder_below n (fst (snd (match_levels (snd (snd r)) (fst r)
            (opp[it := (fst (opp ! it), fst (snd r))]) (Suc it))))"
        using IH(2) ok u by simp
      have IH3: "\<not> is_empty (fst (snd r)) \<Longrightarrow> side (fst r) \<noteq> BUY \<Longrightarrow> it \<noteq> 0 \<Longrightarrow>
         ladder_below n (fst (snd (match_levels (snd (snd r)) (fst r)
            (opp[it := (fst (opp ! it), fst (snd r))]) (it - 1))))"
        using IH(3) ok u by simp
      have nil: "ladder_below n []" by (simp add: ladder_below_def)
      show ?thesis
        apply (subst match_levels.simps)
        using go ok u e IH1 IH2 IH3 nil
        by (auto simp: Let_def r_def[symmetric])
    qed
  qed
qed

lemma ladder_below_mono: "ladder_below n xs \<Longrightarrow> n \<le> n' \<Longrightarrow> ladder_below n' xs"
  by (fastforce simp: ladder_below_def list_all_iff)

lemma ladder_below_insert:
  "ladder_below n xs \<Longrightarrow> ladder_below n (ladder_insert p new_PriceLevel xs)"
  by (induction xs) (auto simp: ladder_below_def new_PriceLevel_def)

lemma ladder_below_modify:
  assumes "ladder_below n xs" "\<And>l. list_all (\<lambda>a. a < n) (level_orders l) \<Longrightarrow> list_all (\<lambda>a. a < n) (level_orders (f l))"
  shows "ladder_below n (ladder_modify p f xs)"
  using assms by (auto simp: ladder_below_def ladder_modify_def list_all_iff)

lemma ladder_below_erase_key: "ladder_below n xs \<Longrightarrow> ladder_below n (ladder_erase_key p xs)"
  by (auto simp: ladder_below_def ladder_erase_key_def list_all_iff)

lemma ladder_below_find:
  "ladder_below n xs \<Longrightarrow> ladder_find p xs = Some l \<Longrightarrow> list_all (\<lambda>a. a < n) (level_orders l)"
  by (auto simp: ladder_below_def ladder_find_def list_all_iff dest!: map_of_SomeD)

lemma match_levels_ladders:
  "bids (snd (snd (match_levels b ord opp it))) = bids b \<and>
   asks (snd (snd (match_levels b ord opp it))) = asks b \<and>
   next_addr (snd (snd (match_levels b ord opp it))) = next_addr b"
proof -
  define J where "J = (\<lambda>(bk::SimpleOrderBook) (ord::Order).
     bids bk = bids b \<and> asks bk = asks b \<and> next_addr bk = next_addr b)"
  have "J (snd (snd (match_levels b ord opp it))) (fst (match_levels b ord opp it))"
    by (rule match_levels_preserves) (auto simp: J_def execute_trade_def set_status_def Let_def)
  then show ?thesis by (simp add: J_def)
qed

lemma match_opposite_well_addressed:
  assumes "well_addressed b"
  shows "well_addressed (snd (snd (match_opposite b a)))"
proof -
  have "ladder_below (next_addr b) (fst (snd (match_levels b ord opp it)))"
    if "ladder_below (next_addr b) opp" for ord opp it
    using that by (rule match_levels_below)
  then show ?thesis
    using assms match_levels_ladders
    by (auto simp: match_opposite_def try_match_order_def Let_def well_addressed_def)
qed

lemma add_to_book_well_addressed:
  assumes "well_addressed b" "a < next_addr b"
  shows "well_addressed (add_to_book b a)"
proof -
  have m: "ladder_below (next_addr b)
             (ladder_modify p (\<lambda>lvl. level_add_order (store b) lvl a) xs)"
    if "ladder_below (next_addr b) xs" for p xs
    using that assms(2) by (intro ladder_below_modify) (auto simp: level_add_order_def)
  show ?thesis
    using assms(1) m ladder_below_insert
    by (auto simp: add_to_book_def well_addressed_def Let_def)
qed

lemma remove_from_book_well_addressed:
  assumes "well_addressed b"
  shows "well_addressed (remove_from_book b a oid)"
proof -
  have m: "ladder_below (next_addr b) (ladder_modify p (\<lambda>_. level_remove_order (store b) l oid) xs)"
    if "ladder_below (next_addr b) xs" "ladder_find p xs = Some l" for p xs l
  proof (rule ladder_below_modify[OF that(1)])
    have "list_all (\<lambda>a. a < next_addr b) (level_orders l)" using ladder_below_find[OF that] .
    then show "list_all (\<lambda>a. a < next_addr b) (level_orders (level_remove_order (store b) l oid))"
      using level_remove_order_subset[of "store b" l oid] by (auto simp: list_all_iff)
  qed
  show ?thesis
    using assms m ladder_below_erase_key
    by (auto simp: remove_from_book_def well_addressed_def Let_def split: option.splits)
qed

lemma well_addressed_write [simp]:
  "well_addressed (write_order b a ord) = well_addressed b"
  "well_addressed (set_status b a st) = well_addressed b"
  by (simp_all add: well_addressed_def write_order_def set_status_def)

lemma add_order_well_addressed:
  assumes "well_addressed b"
  shows "well_addressed (snd (add_order b ord))"
proof -
  define a where "a = next_addr b"
  define b1 where "b1 = b\<lparr>orders := (orders b)(order_id ord \<mapsto> a),
                 store := (store b)(a := ord), next_addr := Suc a\<rparr>"
  have 1: "well_addressed b1"
    using assms ladder_below_mono[of a _ "Suc a"] by (auto simp: well_addressed_def b1_def a_def)
  obtain m ord' b' where mo: "match_opposite b1 a = (m, ord', b')" by (cases "match_opposite b1 a")
  have 2: "well_addressed b'" using match_opposite_well_addressed[OF 1, of a] mo by simp
  have 3: "a < next_addr b'" using match_opposite_fields[of b1 a] mo by (simp add: b1_def)
  have 4: "well_addressed (add_to_book (write_order b' a x) a)" for x
    using 2 3 by (intro add_to_book_well_addressed) simp_all
  show ?thesis
    unfolding add_order_def Let_def a_def[symmetric] b1_def[symmetric]
    using 2 4
    by (cases "order_type ord") (auto simp: process_limit_order_def process_market_order_def mo)
qed

lemma cancel_order_well_addressed:
  assumes "well_addressed b"
  shows "well_addressed (snd (cancel_order b oid))"
  using assms remove_from_book_well_addressed[OF assms]
  by (auto simp: cancel_order_def Let_def split: option.splits)

lemma modify_order_well_addressed:
  assumes "well_addressed b"
  shows "well_addressed (snd (modify_order b oid q p))"
  using assms add_order_well_addressed[OF cancel_order_well_addressed[OF assms]]
  by (auto simp: modify_order_def Let_def split: option.splits)

lemma well_addressed_new: "well_addressed (new_SimpleOrderBook symbol)"
  by (simp add: well_addressed_def ladder_below_def new_SimpleOrderBook_def)

lemma apply_ops_well_addressed:
  "well_addressed b \<Longrightarrow> well_addressed (apply_ops b ops)"
proof (induction ops arbitrary: b)
  case Nil
  then show ?case by (simp add: apply_ops_def)
next
  case (Cons opn ops)
  have "well_addressed (apply_op b opn)"
    using Cons.prems add_order_well_addressed cancel_order_well_addressed modify_order_well_addressed
    by (cases opn) simp_all
  from Cons.IH[OF this] show ?case by (simp add: apply_ops_def)
qed

lemma match_opposite_own_side:
  "side_ladder (snd (snd (match_opposite b a))) (side (store b a)) = side_ladder b (side (store b a))"
  using match_levels_ladders
  by (cases "side (store b a)") (auto simp: match_opposite_def try_match_order_def Let_def side_ladder_def)

lemma match_opposite_flag:
  "filled_quantity (store b a) = 0 \<Longrightarrow>
   fst (match_opposite b a) = (filled_quantity (fst (snd (match_opposite b a))) \<noteq> 0)"
  by (auto simp: match_opposite_def try_match_order_def Let_def word_greater_zero_iff)

subsection \<open>Books of the simulator\<close>

lemma submit_order_other_symbol:
  "symbol \<noteq> symbol' \<Longrightarrow>
   order_books (snd (submit_order sim symbol' s type qty px stop_px)) symbol = order_books sim symbol"
  by (simp add: submit_order_def Let_def)

lemma submit_all_other_symbol:
  "symbol \<notin> sub_symbol ` set subs \<Longrightarrow>
   order_books (submit_all sim subs) symbol = order_books sim symbol"
proof (induction subs arbitrary: sim)
  case Nil
  then show ?case by (simp add: submit_all_def)
next
  case (Cons r subs)
  have "order_books (submit_all (snd (submit_order sim (sub_symbol r) (sub_side r) (sub_type r)
           (sub_quantity r) (sub_price r) (sub_stop_price r))) subs) symbol
        = order_books sim symbol"
    using Cons by (simp add: submit_order_other_symbol)
  then show ?case by (simp add: submit_all_def)
qed

subsection \<open>Trade numbers and counters\<close>

lemma counted_refl: "counted b b"
  by (simp add: counted_def)

lemma counted_execute_trade:
  assumes "counted b bk"
  shows "counted b (snd (execute_trade bk ord m q))"
proof -
  from assms obtain ts where ts: "trades bk = trades b @ ts"
     "map trade_id ts = map (\<lambda>i. next_trade_id b + of_nat i) [0..<length ts]"
     "next_trade_id bk = next_trade_id b + of_nat (length ts)"
     "trade_count bk = trade_count b + of_nat (length ts)"
     "total_volume bk = total_volume b + sum_list (map trade_quantity ts)"
    by (auto simp: counted_def)
  show ?thesis
    unfolding counted_def
    apply (rule exI[of _ "ts @ [last (trades (snd (execute_trade bk ord m q)))]"])
    using ts by (simp add: execute_trade_def Let_def add.assoc)
qed

lemma counted_fields:
  assumes "counted b bk" "trades bk' = trades bk" "next_trade_id bk' = next_trade_id bk"
    "trade_count bk' = trade_count bk" "total_volume bk' = total_volume bk"
  shows "counted b bk'"
  using assms by (simp add: counted_def)

lemma match_opposite_counted: "counted b (snd (snd (match_opposite b a)))"
proof -
  define J where "J = (\<lambda>(bk::SimpleOrderBook) (ord::Order). counted b bk)"
  have "J (snd (snd (match_opposite b a))) (fst (snd (match_opposite b a)))"
  proof (rule match_opposite_preserves)
    show "J b (store b a)" by (simp add: J_def counted_refl)
  next
    fix bk ord m
    assume "J bk ord"
    then have c: "counted b bk" by (simp add: J_def)
    show "J (set_status bk m FILLED) ord"
      unfolding J_def by (rule counted_fields[OF c]) (simp_all add: set_status_def)
    show "J (snd (execute_trade bk ord m (min (remaining_quantity ord) (remaining_quantity (store bk m)))))
            (fst (execute_trade bk ord m (min (remaining_quantity ord) (remaining_quantity (store bk m)))))"
      unfolding J_def by (rule counted_execute_trade[OF c])
  next
    fix bk ord l
    assume "J bk ord"
    then have c: "counted b bk" by (simp add: J_def)
    show "J (bk\<lparr>asks := l\<rparr>) ord \<and> J (bk\<lparr>bids := l\<rparr>) ord"
      unfolding J_def using counted_fields[OF c, of "bk\<lparr>asks := l\<rparr>"] counted_fields[OF c, of "bk\<lparr>bids := l\<rparr>"]
      by simp
  qed
  then show ?thesis by (simp add: J_def)
qed

lemma add_to_book_counters [simp]:
  "next_trade_id (add_to_book b a) = next_trade_id b" "trade_count (add_to_book b a) = trade_count b"
  "total_volume (add_to_book b a) = total_volume b"
  by (simp_all add: add_to_book_def Let_def)

lemma write_order_counters [simp]:
  "next_trade_id (write_order b a x) = next_trade_id b" "trade_count (write_order b a x) = trade_count b"
  "total_volume (write_order b a x) = total_volume b"
  by (simp_all add: write_order_def)

section \<open>Claims\<close>

text \<open>
  C1. The claim: every trade carries the price of the resting order. \<open>execute_trade\<close>
  takes the price of the sell order, whichever of the two orders rests. With a buy
  resting at 5100 and an incoming sell with limit 5000 the trade is priced 5000, not the
  resting 5100; with an incoming market sell (price field 0) against bids at 5100 and
  5000 the trade is priced 0.
\<close>

theorem sell_aggressor_trade_price_is_its_own:
  "trades sell_aggressor_book =
     [\<lparr>trade_id = 1, buy_order_id = 1, sell_order_id = 2, trade_symbol_id = 100,
       trade_quantity = 10, trade_price = 5000\<rparr>]
   \<and> orders sell_aggressor_book 1 = Some 0
   \<and> side (store sell_aggressor_book 0) = BUY
   \<and> price (store sell_aggressor_book 0) = 5100
   \<and> trade_price (hd (trades sell_aggressor_book)) \<noteq> price (store sell_aggressor_book 0)
   \<and> trades market_sell_book =
     [\<lparr>trade_id = 1, buy_order_id = 1, sell_order_id = 3, trade_symbol_id = 100,
       trade_quantity = 10, trade_price = 0\<rparr>]
   \<and> price (store market_sell_book 0) = 5100"
  by code_simp

text \<open>
  C2. The claim: after every operation the best bid is strictly below the best ask.
  With bids of 10 at 5100 and 10 at 5000, a sell of 20 with limit 5000 fills the level
  at 5100 and erases it; \<open>erase\<close> returns the position after the erased level, which for
  the highest level is \<open>end()\<close>, so the loop stops with the bid at 5000 untouched. The
  rest of the sell is then placed on the ask side at 5000: best bid 5000, best ask 5000.
\<close>

theorem sell_after_erased_level_leaves_crossed_book:
  "bids two_bid_levels_book = [(5000, \<lparr>level_orders = [1], total_quantity = 10\<rparr>)]
   \<and> asks two_bid_levels_book = [(5000, \<lparr>level_orders = [2], total_quantity = 20\<rparr>)]
   \<and> status (store two_bid_levels_book 1) = NEW
   \<and> remaining_quantity (store two_bid_levels_book 1) = 10
   \<and> status (store two_bid_levels_book 2) = PARTIALLY_FILLED
   \<and> remaining_quantity (store two_bid_levels_book 2) = 10
   \<and> best_bid_price (get_market_data two_bid_levels_book 0) = 5000
   \<and> best_ask_price (get_market_data two_bid_levels_book 0) = 5000
   \<and> \<not> best_bid_price (get_market_data two_bid_levels_book 0)
         < best_ask_price (get_market_data two_bid_levels_book 0)"
  by code_simp

text \<open>
  C3. The claim: a market order matches at any price until it is filled or the opposite
  side is used up. \<open>try_match_order\<close> has one price test for all order types, against
  the order's own price field. In the demo of \<open>SimpleOrderBook\<close> and in the test
  \<open>test_price_priority\<close> the market buy (price 0) finds no ask at or below 0: no trade,
  status REJECTED, the asks stay. A market sell of 20 against bids of 10 at 5100 and 10
  at 5000 takes the first level only (the loop stops after the erased level) and ends
  PARTIALLY\_FILLED with the bid at 5000 still there. What the claim says of the status
  values and of never resting holds in these runs.
\<close>

theorem market_order_is_bound_by_its_price_field:
  "trades demo_book = []
   \<and> status (store demo_book 4) = REJECTED
   \<and> get_ask_levels demo_book 5 = [(5005, 1000), (5010, 2000)]
   \<and> get_bid_levels demo_book 5 = [(4995, 1500), (4990, 1000)]
   \<and> trades market_buy_book = []
   \<and> status (store market_buy_book 3) = REJECTED
   \<and> filled_quantity (store market_buy_book 3) = 0
   \<and> bids market_buy_book = []
   \<and> get_ask_levels market_buy_book 10 = [(5000, 1000), (5100, 1000), (5200, 1000)]
   \<and> map trade_quantity (trades market_sell_book) = [10]
   \<and> status (store market_sell_book 2) = PARTIALLY_FILLED
   \<and> remaining_quantity (store market_sell_book 2) = 10
   \<and> bids market_sell_book = [(5000, \<lparr>level_orders = [1], total_quantity = 10\<rparr>)]
   \<and> asks market_sell_book = []"
  by code_simp

text \<open>
  C4. The claim: a level's \<open>total_quantity\<close> is the sum of the remaining quantities of
  its live orders, and the queries report that sum. \<open>PriceLevel::add_order\<close> and
  \<open>remove_order\<close> add and subtract the order's original \<open>quantity\<close>, and a fill changes
  no level. In the test \<open>test_partial_fill\<close> (sell 5000, then buy 2000, at 5000) the ask
  level reports 5000 while the remaining quantity of its only order is 3000.
\<close>

theorem partial_fill_leaves_total_quantity:
  "asks partial_fill_book = [(5000, \<lparr>level_orders = [0], total_quantity = 5000\<rparr>)]
   \<and> live (store partial_fill_book) 0
   \<and> remaining_quantity (store partial_fill_book 0) = 3000
   \<and> live_remaining (store partial_fill_book) (snd (hd (asks partial_fill_book))) = 3000
   \<and> total_quantity (snd (hd (asks partial_fill_book))) = 5000
   \<and> best_ask_price (get_market_data partial_fill_book 0) = 5000
   \<and> best_ask_quantity (get_market_data partial_fill_book 0) = 5000
   \<and> get_ask_levels partial_fill_book 10 = [(5000, 5000)]"
  by code_simp

text \<open>
  C5. The claim: an order of quantity 0 is rejected before matching and does not rest.
  No operation tests the quantity. A limit buy of quantity 0 at 5000 into an empty book
  gets status NEW and is put on the bid side.
\<close>

theorem zero_quantity_limit_order_rests:
  "orders zero_quantity_book 1 = Some 0
   \<and> quantity (store zero_quantity_book 0) = 0
   \<and> status (store zero_quantity_book 0) = NEW
   \<and> status (store zero_quantity_book 0) \<noteq> REJECTED
   \<and> bids zero_quantity_book = [(5000, \<lparr>level_orders = [0], total_quantity = 0\<rparr>)]"
  by code_simp

text \<open>
  C5, as amended. A new order of quantity 0 is not matched: \<open>add_order\<close> returns true and
  emits no trade. A MARKET order gets status REJECTED and both ladders stay as they were;
  a LIMIT or STOP order gets status NEW and is appended to the level at its price on its
  own side (a new level if there was none).
\<close>

theorem zero_quantity_order_is_not_matched:
  "fst (add_order b (new_Order oid symbol s type 0 px stop_px))
   \<and> trades (snd (add_order b (new_Order oid symbol s type 0 px stop_px))) = trades b
   \<and> orders (snd (add_order b (new_Order oid symbol s type 0 px stop_px))) oid = Some (next_addr b)
   \<and> store (snd (add_order b (new_Order oid symbol s type 0 px stop_px))) (next_addr b) =
        (new_Order oid symbol s type 0 px stop_px)\<lparr>status := (if type = MARKET then REJECTED else NEW)\<rparr>
   \<and> (if type = MARKET
      then bids (snd (add_order b (new_Order oid symbol s type 0 px stop_px))) = bids b
         \<and> asks (snd (add_order b (new_Order oid symbol s type 0 px stop_px))) = asks b
      else map_option level_orders
             (ladder_find px (side_ladder (snd (add_order b (new_Order oid symbol s type 0 px stop_px))) s))
           = Some ((case ladder_find px (side_ladder b s) of None \<Rightarrow> [] | Some lvl \<Rightarrow> level_orders lvl)
                   @ [next_addr b]))"
proof -
  define ord where "ord = new_Order oid symbol s type 0 px stop_px"
  define b1 where "b1 = b\<lparr>orders := (orders b)(order_id ord \<mapsto> next_addr b),
                 store := (store b)(next_addr b := ord), next_addr := Suc (next_addr b)\<rparr>"
  have ord: "order_id ord = oid" "side ord = s" "price ord = px" "order_type ord = type"
    by (simp_all add: ord_def new_Order_def)
  have z: "remaining_quantity (store b1 (next_addr b)) = 0" "filled_quantity (store b1 (next_addr b)) = 0"
    by (simp_all add: b1_def ord_def new_Order_def remaining_quantity_def)
  note pz = process_zero_quantity[OF z]
  have st: "store b1 (next_addr b) = ord" by (simp add: b1_def)
  have sl: "side_ladder (write_order b1 (next_addr b) x) s' = side_ladder b s'" for x s'
    by (simp add: side_ladder_def b1_def)
  have fst: "fst (add_order b ord)"
    by (simp add: add_order_def Let_def split: OrderType.splits)
  have res: "snd (add_order b ord) =
      (if type = MARKET then write_order b1 (next_addr b) (ord\<lparr>status := REJECTED\<rparr>)
       else add_to_book (write_order b1 (next_addr b) (ord\<lparr>status := NEW\<rparr>)) (next_addr b))"
    unfolding add_order_def Let_def b1_def[symmetric]
    by (cases type) (simp_all add: ord(4) pz st)
  have b1: "trades b1 = trades b" "orders b1 oid = Some (next_addr b)" "bids b1 = bids b" "asks b1 = asks b"
    by (simp_all add: b1_def ord)
  have wr: "store (write_order b1 (next_addr b) x) (next_addr b) = x" for x by simp
  show ?thesis
    unfolding ord_def[symmetric]
    using fst b1
    by (simp add: res side_ladder_add_to_book sl ord level_add_order_def new_PriceLevel_def
             split: option.splits)
qed

text \<open>The amended C5 at a market order and at a limit order of quantity 0.\<close>

theorem zero_quantity_order_is_not_matched_witness:
  "status (store (snd (add_order one_bid_book (new_Order 2 100 SELL MARKET 0 0 0))) 1) = REJECTED
   \<and> bids (snd (add_order one_bid_book (new_Order 2 100 SELL MARKET 0 0 0))) = bids one_bid_book
   \<and> trades (snd (add_order one_bid_book (new_Order 2 100 SELL MARKET 0 0 0))) = trades one_bid_book
   \<and> status (store (snd (add_order one_bid_book (new_Order 2 100 BUY LIMIT 0 5000 0))) 1) = NEW
   \<and> map_option level_orders
        (ladder_find 5000 (side_ladder (snd (add_order one_bid_book (new_Order 2 100 BUY LIMIT 0 5000 0))) BUY))
      = Some [0, 1]"
proof -
  have n: "next_addr one_bid_book = 1
     \<and> ladder_find 5000 (side_ladder one_bid_book BUY)
         = Some \<lparr>level_orders = [0], total_quantity = 1000\<rparr>"
    by code_simp
  show ?thesis
    using n zero_quantity_order_is_not_matched[of one_bid_book 2 100 SELL MARKET 0 0]
      zero_quantity_order_is_not_matched[of one_bid_book 2 100 BUY LIMIT 5000 0]
    by (simp add: new_Order_def)
qed

text \<open>
  C6. The claim: a FILLED, CANCELLED or REJECTED order is never changed again, and
  \<open>cancel\<close> leaves a REJECTED order's status as it is. \<open>cancel_order\<close> turns away FILLED
  and CANCELLED only. A market buy into an empty book is REJECTED; \<open>cancel_order\<close> on
  its id returns true and sets its status to CANCELLED.
\<close>

theorem cancel_changes_rejected_order:
  "orders rejected_market_book 1 = Some 0
   \<and> status (store rejected_market_book 0) = REJECTED
   \<and> fst (cancel_order rejected_market_book 1)
   \<and> status (store (snd (cancel_order rejected_market_book 1)) 0) = CANCELLED
   \<and> status (store (snd (cancel_order rejected_market_book 1)) 0)
        \<noteq> status (store rejected_market_book 0)"
  by code_simp

text \<open>
  C6, as amended. The record of an order that is FILLED or CANCELLED stays as it is
  through every sequence of add, cancel and modify operations. As long as the index
  holds that record for an id, cancel and modify on the id return false and change
  nothing; once \<open>modify_order\<close> has given the id to a replacement, they act on the
  replacement and still leave the old record alone. A REJECTED order is not final: cancel
  on the id that the index holds it for returns true and sets its status to CANCELLED.
  (\<open>a < next_addr b\<close>: the record is one the book has been given; \<open>orders b oid = Some a\<close>:
  the index holds the record at \<open>a\<close> for the id.)
\<close>

theorem filled_or_cancelled_record_is_final:
  "(a < next_addr b \<and> (status (store b a) = FILLED \<or> status (store b a) = CANCELLED) \<longrightarrow>
      store (apply_ops b ops) a = store b a
      \<and> (orders b oid = Some a \<longrightarrow>
           cancel_order b oid = (False, b) \<and> modify_order b oid new_quantity new_price = (False, b)))
   \<and> (orders b oid = Some a \<and> status (store b a) = REJECTED \<longrightarrow>
        fst (cancel_order b oid) \<and> status (store (snd (cancel_order b oid)) a) = CANCELLED)"
proof (intro conjI impI)
  assume h: "a < next_addr b \<and> (status (store b a) = FILLED \<or> status (store b a) = CANCELLED)"
  then have nl: "\<not> live (store b) a" by (auto simp: live_def)
  show "store (apply_ops b ops) a = store b a"
    using h nl by (simp add: apply_ops_frame)
  assume "orders b oid = Some a"
  then show "cancel_order b oid = (False, b)" "modify_order b oid new_quantity new_price = (False, b)"
    using h by (auto simp: cancel_order_def modify_order_def)
next
  assume h: "orders b oid = Some a \<and> status (store b a) = REJECTED"
  then show "fst (cancel_order b oid)"
    by (simp add: cancel_order_def Let_def)
  show "status (store (snd (cancel_order b oid)) a) = CANCELLED"
    using h by (simp add: cancel_order_def Let_def set_status_def)
qed

text \<open>
  The amended C6 in the FIFO scenario, where order 1 is FILLED, for the rejected market
  buy, and for buy 2 after modify(2, 1000): its old record, at address 1, is CANCELLED,
  the index holds the replacement, at address 2, for id 2, a cancel of id 2 returns true,
  and the old record is the same after it.
\<close>

theorem filled_or_cancelled_record_is_final_witness:
  "0 < next_addr fifo_book \<and> status (store fifo_book 0) = FILLED \<and> orders fifo_book 1 = Some 0
   \<and> store (apply_ops fifo_book
        [Cancel 1, Modify 1 700 4990, Add (new_Order 4 100 SELL LIMIT 3000 5000 0), Cancel 2]) 0
      = store fifo_book 0
   \<and> cancel_order fifo_book 1 = (False, fifo_book)
   \<and> modify_order fifo_book 1 700 4990 = (False, fifo_book)
   \<and> orders rejected_market_book 1 = Some 0 \<and> status (store rejected_market_book 0) = REJECTED
   \<and> fst (cancel_order rejected_market_book 1)
   \<and> status (store (snd (cancel_order rejected_market_book 1)) 0) = CANCELLED
   \<and> status (store (apply_ops partly_filled_resting_book [Modify 2 1000 0]) 1) = CANCELLED
   \<and> order_id (store (apply_ops partly_filled_resting_book [Modify 2 1000 0]) 1) = 2
   \<and> orders (apply_ops partly_filled_resting_book [Modify 2 1000 0]) 2 = Some 2
   \<and> fst (cancel_order (apply_ops partly_filled_resting_book [Modify 2 1000 0]) 2)
   \<and> store (apply_ops (apply_ops partly_filled_resting_book [Modify 2 1000 0])
        [Cancel 2, Add (new_Order 3 100 SELL LIMIT 1000 5000 0), Modify 2 5 0]) 1
      = store (apply_ops partly_filled_resting_book [Modify 2 1000 0]) 1"
proof -
  have h1: "0 < next_addr fifo_book
      \<and> (status (store fifo_book 0) = FILLED \<or> status (store fifo_book 0) = CANCELLED)"
    by code_simp
  have h2: "orders fifo_book 1 = Some 0" by code_simp
  have h3: "orders rejected_market_book 1 = Some 0 \<and> status (store rejected_market_book 0) = REJECTED"
    by code_simp
  have h4: "status (store fifo_book 0) = FILLED" by code_simp
  have h5: "1 < next_addr (apply_ops partly_filled_resting_book [Modify 2 1000 0])
      \<and> (status (store (apply_ops partly_filled_resting_book [Modify 2 1000 0]) 1) = FILLED
         \<or> status (store (apply_ops partly_filled_resting_book [Modify 2 1000 0]) 1) = CANCELLED)"
    by code_simp
  have h6: "status (store (apply_ops partly_filled_resting_book [Modify 2 1000 0]) 1) = CANCELLED
      \<and> order_id (store (apply_ops partly_filled_resting_book [Modify 2 1000 0]) 1) = 2
      \<and> orders (apply_ops partly_filled_resting_book [Modify 2 1000 0]) 2 = Some 2
      \<and> fst (cancel_order (apply_ops partly_filled_resting_book [Modify 2 1000 0]) 2)"
    by code_simp
  have f: "store (apply_ops (apply_ops partly_filled_resting_book [Modify 2 1000 0])
        [Cancel 2, Add (new_Order 3 100 SELL LIMIT 1000 5000 0), Modify 2 5 0]) 1
      = store (apply_ops partly_filled_resting_book [Modify 2 1000 0]) 1"
    using h5
      filled_or_cancelled_record_is_final[of 1 "apply_ops partly_filled_resting_book [Modify 2 1000 0]"
        "[Cancel 2, Add (new_Order 3 100 SELL LIMIT 1000 5000 0), Modify 2 5 0]" 2 0 0]
    by blast
  have g: "store (apply_ops fifo_book
        [Cancel 1, Modify 1 700 4990, Add (new_Order 4 100 SELL LIMIT 3000 5000 0), Cancel 2]) 0
      = store fifo_book 0
      \<and> cancel_order fifo_book 1 = (False, fifo_book)
      \<and> modify_order fifo_book 1 700 4990 = (False, fifo_book)"
    using h1 h2
      filled_or_cancelled_record_is_final[of 0 fifo_book
        "[Cancel 1, Modify 1 700 4990, Add (new_Order 4 100 SELL LIMIT 3000 5000 0), Cancel 2]" 1 700 4990]
    by blast
  have r: "fst (cancel_order rejected_market_book 1)
      \<and> status (store (snd (cancel_order rejected_market_book 1)) 0) = CANCELLED"
    using h3 filled_or_cancelled_record_is_final[of 0 rejected_market_book "[]" 1 0 0]
    by blast
  show ?thesis using h1 h2 h3 h4 h6 f g r by simp
qed

text \<open>
  C7. In the FIFO scenario the sell trades 1000 against id 1 and then 500 against id 2,
  orders 1 and 3 end FILLED and order 2 has 1500 remaining, as the claim says. The status
  of order 2, however, is still NEW: \<open>try_match_order\<close> writes the status of a resting
  order only when it is completely filled, so a partially filled resting order is never
  marked PARTIALLY\_FILLED.
\<close>

theorem fifo_scenario_partial_fill_keeps_NEW:
  "trades fifo_book =
     [\<lparr>trade_id = 1, buy_order_id = 1, sell_order_id = 3, trade_symbol_id = 100,
       trade_quantity = 1000, trade_price = 5000\<rparr>,
      \<lparr>trade_id = 2, buy_order_id = 2, sell_order_id = 3, trade_symbol_id = 100,
       trade_quantity = 500, trade_price = 5000\<rparr>]
   \<and> orders fifo_book 1 = Some 0 \<and> orders fifo_book 2 = Some 1 \<and> orders fifo_book 3 = Some 2
   \<and> status (store fifo_book 0) = FILLED
   \<and> status (store fifo_book 1) = NEW
   \<and> status (store fifo_book 1) \<noteq> PARTIALLY_FILLED
   \<and> filled_quantity (store fifo_book 1) = 500
   \<and> remaining_quantity (store fifo_book 1) = 1500
   \<and> status (store fifo_book 2) = FILLED"
  by code_simp




text \<open>
  C9. The queries never fail: no branch of them does, and the reads of the best levels
  are taken on non-empty ladders only. For a symbol that no \<open>submit_order\<close> call has
  named, and whenever the simulator has no book for the symbol, the snapshot has the
  symbol and 0 in every other field, and both level lists are empty. For a book with two
  empty ladders the best bid, best ask and last trade fields are 0, the volume is the
  book's cumulative volume, the timestamp is the clock's, and both level lists are empty.
\<close>

theorem queries_are_total_and_empty_for_unknown_symbol:
  "(symbol \<notin> sub_symbol ` set subs \<longrightarrow>
      simulator_get_market_data (submit_all new_OrderBookSimulator subs) symbol now =
        \<lparr>snapshot_symbol_id = symbol, snapshot_timestamp = 0, best_bid_price = 0,
         best_bid_quantity = 0, best_ask_price = 0, best_ask_quantity = 0,
         last_trade_price = 0, last_trade_quantity = 0, volume = 0\<rparr>
      \<and> simulator_get_bid_levels (submit_all new_OrderBookSimulator subs) symbol depth = []
      \<and> simulator_get_ask_levels (submit_all new_OrderBookSimulator subs) symbol depth = [])
   \<and> (order_books sim symbol = None \<longrightarrow>
      simulator_get_market_data sim symbol now =
        \<lparr>snapshot_symbol_id = symbol, snapshot_timestamp = 0, best_bid_price = 0,
         best_bid_quantity = 0, best_ask_price = 0, best_ask_quantity = 0,
         last_trade_price = 0, last_trade_quantity = 0, volume = 0\<rparr>
      \<and> simulator_get_bid_levels sim symbol depth = []
      \<and> simulator_get_ask_levels sim symbol depth = [])
   \<and> (order_books sim symbol = Some bk \<and> bids bk = [] \<and> asks bk = [] \<longrightarrow>
      simulator_get_market_data sim symbol now =
        \<lparr>snapshot_symbol_id = book_symbol_id bk, snapshot_timestamp = now, best_bid_price = 0,
         best_bid_quantity = 0, best_ask_price = 0, best_ask_quantity = 0,
         last_trade_price = 0, last_trade_quantity = 0, volume = total_volume bk\<rparr>
      \<and> simulator_get_bid_levels sim symbol depth = []
      \<and> simulator_get_ask_levels sim symbol depth = [])"
proof -
  have none: "simulator_get_market_data sm symbol now =
        \<lparr>snapshot_symbol_id = symbol, snapshot_timestamp = 0, best_bid_price = 0,
         best_bid_quantity = 0, best_ask_price = 0, best_ask_quantity = 0,
         last_trade_price = 0, last_trade_quantity = 0, volume = 0\<rparr>
      \<and> simulator_get_bid_levels sm symbol depth = []
      \<and> simulator_get_ask_levels sm symbol depth = []"
    if "order_books sm symbol = None" for sm
    using that
    by (simp add: simulator_get_market_data_def simulator_get_bid_levels_def
          simulator_get_ask_levels_def new_MarketDataSnapshot_def)
  have unused: "order_books (submit_all new_OrderBookSimulator subs) symbol = None"
    if "symbol \<notin> sub_symbol ` set subs"
    using submit_all_other_symbol[OF that, of new_OrderBookSimulator]
    by (simp add: new_OrderBookSimulator_def)
  have empty: "simulator_get_market_data sim symbol now =
        \<lparr>snapshot_symbol_id = book_symbol_id bk, snapshot_timestamp = now, best_bid_price = 0,
         best_bid_quantity = 0, best_ask_price = 0, best_ask_quantity = 0,
         last_trade_price = 0, last_trade_quantity = 0, volume = total_volume bk\<rparr>
      \<and> simulator_get_bid_levels sim symbol depth = []
      \<and> simulator_get_ask_levels sim symbol depth = []"
    if "order_books sim symbol = Some bk \<and> bids bk = [] \<and> asks bk = []"
    using that
    by (simp add: simulator_get_market_data_def simulator_get_bid_levels_def
          simulator_get_ask_levels_def get_market_data_def get_bid_levels_def
          get_ask_levels_def new_MarketDataSnapshot_def Let_def)
  show ?thesis using none unused empty by blast
qed

text \<open>
  C9 for a simulator where symbol 100 has traded and its book is empty again, and symbol
  101 was never used.
\<close>

theorem queries_are_total_and_empty_for_unknown_symbol_witness:
  "order_books one_symbol_simulator 101 = None
   \<and> simulator_get_market_data one_symbol_simulator 101 77 = new_MarketDataSnapshot 101
   \<and> simulator_get_bid_levels one_symbol_simulator 101 10 = []
   \<and> simulator_get_ask_levels one_symbol_simulator 101 10 = []
   \<and> map_option bids (order_books one_symbol_simulator 100) = Some []
   \<and> map_option asks (order_books one_symbol_simulator 100) = Some []
   \<and> volume (simulator_get_market_data one_symbol_simulator 100 77) = 1000
   \<and> snapshot_timestamp (simulator_get_market_data one_symbol_simulator 100 77) = 77
   \<and> best_bid_price (simulator_get_market_data one_symbol_simulator 100 77) = 0
   \<and> best_bid_quantity (simulator_get_market_data one_symbol_simulator 100 77) = 0
   \<and> best_ask_price (simulator_get_market_data one_symbol_simulator 100 77) = 0
   \<and> best_ask_quantity (simulator_get_market_data one_symbol_simulator 100 77) = 0
   \<and> simulator_get_bid_levels one_symbol_simulator 100 10 = []
   \<and> simulator_get_ask_levels one_symbol_simulator 100 10 = []"
proof -
  define subs where "subs =
     [\<lparr>sub_symbol = 100, sub_side = SELL, sub_type = LIMIT, sub_quantity = 1000,
       sub_price = 5000, sub_stop_price = 0\<rparr>,
      \<lparr>sub_symbol = 100, sub_side = BUY, sub_type = LIMIT, sub_quantity = 1000,
       sub_price = 5000, sub_stop_price = 0\<rparr>]"
  have s: "one_symbol_simulator = submit_all new_OrderBookSimulator subs"
    by (simp add: one_symbol_simulator_def subs_def)
  have h0: "(101::u32) \<notin> sub_symbol ` set subs" by (simp add: subs_def)
  have h1: "order_books one_symbol_simulator 101 = None" by code_simp
  obtain bk where h2: "order_books one_symbol_simulator 100 = Some bk \<and> bids bk = [] \<and> asks bk = []"
  proof -
    have "map_option bids (order_books one_symbol_simulator 100) = Some [] \<and>
          map_option asks (order_books one_symbol_simulator 100) = Some []" by code_simp
    then show ?thesis using that by auto
  qed
  have h3: "total_volume (the (order_books one_symbol_simulator 100)) = 1000" by code_simp
  show ?thesis
    using h0 h1 h2 h3
      queries_are_total_and_empty_for_unknown_symbol[of 101 subs 77 10 one_symbol_simulator bk]
      queries_are_total_and_empty_for_unknown_symbol[of 100 subs 77 10 one_symbol_simulator bk]
    unfolding s[symmetric]
    by (simp add: new_MarketDataSnapshot_def)
qed

text \<open>
  C10. The claim: after a successful modify of a partially filled order the id's record
  shows zero fills. The replacement does start from zero, but \<open>modify_order\<close> hands it
  to \<open>add_order\<close>, where it can trade at once. Buy 3 has filled 400 of 1000 at limit
  5000 and rests beside an ask of 500 at 5100; modify(3, 1000, 5100) succeeds and the
  replacement trades 500 on arrival: the id's record shows 500 filled.
\<close>

theorem modified_order_can_fill_on_arrival:
  "orders partly_filled_buy_book 3 = Some 2
   \<and> status (store partly_filled_buy_book 2) = PARTIALLY_FILLED
   \<and> filled_quantity (store partly_filled_buy_book 2) = 400
   \<and> fst (modify_order partly_filled_buy_book 3 1000 5100)
   \<and> orders (snd (modify_order partly_filled_buy_book 3 1000 5100)) 3 = Some 3
   \<and> status (store (snd (modify_order partly_filled_buy_book 3 1000 5100)) 3) = PARTIALLY_FILLED
   \<and> filled_quantity (store (snd (modify_order partly_filled_buy_book 3 1000 5100)) 3) = 500
   \<and> filled_quantity (store (snd (modify_order partly_filled_buy_book 3 1000 5100)) 3) \<noteq> 0"
  by code_simp

text \<open>
  C10, as amended. For an id whose order is neither FILLED nor CANCELLED, \<open>modify_order\<close>
  is \<open>add_order\<close>, after \<open>cancel_order\<close>, of a new order with the same id, symbol, side
  and type, the new quantity, the new price if it is not 0 and the old price otherwise,
  status NEW and no fills. It returns true, and the index then holds for the id a new
  record whose \<open>filled_quantity\<close> is the sum of the trades of this very call (0 when the
  replacement did not trade on arrival), at most \<open>new_quantity\<close>: nothing of what the
  original order had executed is carried over.
\<close>

theorem modify_order_restarts_fills:
  "orders b oid = Some a \<and> live (store b) a \<longrightarrow>
     modify_order b oid new_quantity new_price =
       add_order (snd (cancel_order b oid))
         (new_Order oid (symbol_id (store b a)) (side (store b a)) (order_type (store b a))
            new_quantity (if new_price > 0 then new_price else price (store b a)) 0)
     \<and> fst (modify_order b oid new_quantity new_price)
     \<and> orders (snd (modify_order b oid new_quantity new_price)) oid = Some (next_addr b)
     \<and> (\<exists>ts st. trades (snd (modify_order b oid new_quantity new_price)) = trades b @ ts
          \<and> store (snd (modify_order b oid new_quantity new_price)) (next_addr b) =
               \<lparr>order_id = oid, symbol_id = symbol_id (store b a), side = side (store b a),
                order_type = order_type (store b a), quantity = new_quantity,
                price = (if new_price > 0 then new_price else price (store b a)),
                stop_price = 0, status = st,
                filled_quantity = sum_list (map trade_quantity ts)\<rparr>
          \<and> sum_list (map trade_quantity ts) \<le> new_quantity)"
proof
  assume h: "orders b oid = Some a \<and> live (store b) a"
  define b1 where "b1 = snd (cancel_order b oid)"
  define new_order where "new_order =
     new_Order oid (symbol_id (store b a)) (side (store b a)) (order_type (store b a))
            new_quantity (if new_price > 0 then new_price else price (store b a)) 0"
  have c: "store b1 a = (store b a)\<lparr>status := CANCELLED\<rparr>"
    using h by (auto simp: b1_def cancel_order_def live_def set_status_def Let_def)
  have m: "modify_order b oid new_quantity new_price = add_order b1 new_order"
    using h by (auto simp: modify_order_def live_def Let_def b1_def[symmetric] c new_order_def)
  have n: "next_addr b1 = next_addr b" "trades b1 = trades b"
    by (simp_all add: b1_def cancel_order_next_addr cancel_order_same)
  have f: "fst (add_order b1 new_order)"
    by (simp add: add_order_def Let_def split: OrderType.splits)
  have no: "order_id new_order = oid" "filled_quantity new_order = 0" "quantity new_order = new_quantity"
    by (simp_all add: new_order_def new_Order_def)
  obtain ts st where r: "trades (snd (add_order b1 new_order)) = trades b1 @ ts"
     "store (snd (add_order b1 new_order)) (next_addr b1) =
         new_order\<lparr>filled_quantity := filled_quantity new_order + sum_list (map trade_quantity ts), status := st\<rparr>"
     "orders (snd (add_order b1 new_order)) (order_id new_order) = Some (next_addr b1)"
     "filled_quantity new_order \<le> quantity new_order \<longrightarrow>
          filled_quantity new_order + sum_list (map trade_quantity ts) \<le> quantity new_order"
    using add_order_record[of b1 new_order] by blast
  have e: "\<exists>ts st. trades (snd (add_order b1 new_order)) = trades b @ ts
          \<and> store (snd (add_order b1 new_order)) (next_addr b) =
               \<lparr>order_id = oid, symbol_id = symbol_id (store b a), side = side (store b a),
                order_type = order_type (store b a), quantity = new_quantity,
                price = (if new_price > 0 then new_price else price (store b a)),
                stop_price = 0, status = st,
                filled_quantity = sum_list (map trade_quantity ts)\<rparr>
          \<and> sum_list (map trade_quantity ts) \<le> new_quantity"
    apply (rule exI[of _ ts], rule exI[of _ st])
    using r no n by (simp add: new_order_def new_Order_def)
  show "modify_order b oid new_quantity new_price =
       add_order (snd (cancel_order b oid))
         (new_Order oid (symbol_id (store b a)) (side (store b a)) (order_type (store b a))
            new_quantity (if new_price > 0 then new_price else price (store b a)) 0)
     \<and> fst (modify_order b oid new_quantity new_price)
     \<and> orders (snd (modify_order b oid new_quantity new_price)) oid = Some (next_addr b)
     \<and> (\<exists>ts st. trades (snd (modify_order b oid new_quantity new_price)) = trades b @ ts
          \<and> store (snd (modify_order b oid new_quantity new_price)) (next_addr b) =
               \<lparr>order_id = oid, symbol_id = symbol_id (store b a), side = side (store b a),
                order_type = order_type (store b a), quantity = new_quantity,
                price = (if new_price > 0 then new_price else price (store b a)),
                stop_price = 0, status = st,
                filled_quantity = sum_list (map trade_quantity ts)\<rparr>
          \<and> sum_list (map trade_quantity ts) \<le> new_quantity)"
    unfolding m using f e r(3) no(1) n(1)
    by (simp add: b1_def[symmetric] new_order_def[symmetric])
qed

text \<open>
  The amended C10: buy 2 has filled 400 of 1000; after modify(2, 1000) its record is a new
  order of 1000 with no fills, and a later sell of 1000 trades 1000 against it, so that
  the trades of id 2 add up to 1400.
\<close>

theorem modify_order_restarts_fills_witness:
  "orders partly_filled_resting_book 2 = Some 1
   \<and> status (store partly_filled_resting_book 1) = PARTIALLY_FILLED
   \<and> filled_quantity (store partly_filled_resting_book 1) = 400
   \<and> next_addr partly_filled_resting_book = 2
   \<and> fst (modify_order partly_filled_resting_book 2 1000 0)
   \<and> orders (snd (modify_order partly_filled_resting_book 2 1000 0)) 2 = Some 2
   \<and> store (snd (modify_order partly_filled_resting_book 2 1000 0)) 2 = new_Order 2 100 BUY LIMIT 1000 5000 0
   \<and> map trade_quantity (trades (apply_ops partly_filled_resting_book
         [Modify 2 1000 0, Add (new_Order 3 100 SELL LIMIT 1000 5000 0)])) = [400, 1000]
   \<and> map buy_order_id (trades (apply_ops partly_filled_resting_book
         [Modify 2 1000 0, Add (new_Order 3 100 SELL LIMIT 1000 5000 0)])) = [2, 2]"
proof -
  have h: "orders partly_filled_resting_book 2 = Some 1 \<and> live (store partly_filled_resting_book) 1"
    by code_simp
  have n: "next_addr partly_filled_resting_book = 2" by code_simp
  have t: "fst (modify_order partly_filled_resting_book 2 1000 0)
     \<and> orders (snd (modify_order partly_filled_resting_book 2 1000 0)) 2
         = Some (next_addr partly_filled_resting_book)"
    using modify_order_restarts_fills[of partly_filled_resting_book 2 1 1000 0] h by blast
  have r: "status (store partly_filled_resting_book 1) = PARTIALLY_FILLED
   \<and> filled_quantity (store partly_filled_resting_book 1) = 400
   \<and> store (snd (modify_order partly_filled_resting_book 2 1000 0)) 2 = new_Order 2 100 BUY LIMIT 1000 5000 0
   \<and> map trade_quantity (trades (apply_ops partly_filled_resting_book
         [Modify 2 1000 0, Add (new_Order 3 100 SELL LIMIT 1000 5000 0)])) = [400, 1000]
   \<and> map buy_order_id (trades (apply_ops partly_filled_resting_book
         [Modify 2 1000 0, Add (new_Order 3 100 SELL LIMIT 1000 5000 0)])) = [2, 2]"
    by code_simp
  show ?thesis using h n t r by simp
qed

section \<open>Further properties\<close>

text \<open>
  In every book built from a new one by add, cancel and modify operations, the price
  levels hold only orders that were given to the book: an Order object enters a level
  through \<open>add_to_book\<close> of its own \<open>add_order\<close> call and in no other way.
\<close>

theorem levels_hold_known_orders_only:
  "well_addressed (apply_ops (new_SimpleOrderBook symbol) ops)"
  by (rule apply_ops_well_addressed[OF well_addressed_new])

text \<open>
  The fills of a new order are its trades: after \<open>add_order\<close> the record of the order
  holds the fields it was created with, and its \<open>filled_quantity\<close> is the sum of the
  quantities of the trades that this call emitted, which is at most its \<open>quantity\<close>.
\<close>

theorem new_order_fills_are_its_trades:
  "\<exists>ts st. trades (snd (add_order b (new_Order oid symbol s type qty px stop_px))) = trades b @ ts
     \<and> store (snd (add_order b (new_Order oid symbol s type qty px stop_px))) (next_addr b) =
         \<lparr>order_id = oid, symbol_id = symbol, side = s, order_type = type, quantity = qty,
          price = px, stop_price = stop_px, status = st,
          filled_quantity = sum_list (map trade_quantity ts)\<rparr>
     \<and> sum_list (map trade_quantity ts) \<le> qty"
proof -
  obtain ts st where r: "trades (snd (add_order b (new_Order oid symbol s type qty px stop_px))) = trades b @ ts"
     "store (snd (add_order b (new_Order oid symbol s type qty px stop_px))) (next_addr b) =
         (new_Order oid symbol s type qty px stop_px)\<lparr>filled_quantity := filled_quantity (new_Order oid symbol s type qty px stop_px) + sum_list (map trade_quantity ts), status := st\<rparr>"
     "filled_quantity (new_Order oid symbol s type qty px stop_px) \<le> quantity (new_Order oid symbol s type qty px stop_px) \<longrightarrow>
          filled_quantity (new_Order oid symbol s type qty px stop_px) + sum_list (map trade_quantity ts) \<le> quantity (new_Order oid symbol s type qty px stop_px)"
    using add_order_record[of b "new_Order oid symbol s type qty px stop_px"] by blast
  show ?thesis
    apply (rule exI[of _ ts], rule exI[of _ st])
    using r by (simp add: new_Order_def)
qed

text \<open>
  A new MARKET order never rests: the ladder of its own side is as before. Its status is
  REJECTED when it traded nothing, FILLED when it traded its whole quantity and
  PARTIALLY\_FILLED otherwise.
\<close>

theorem market_order_status_and_no_rest:
  "side_ladder (snd (add_order b (new_Order oid symbol s MARKET qty px stop_px))) s = side_ladder b s
   \<and> status (store (snd (add_order b (new_Order oid symbol s MARKET qty px stop_px))) (next_addr b)) =
       (if filled_quantity (store (snd (add_order b (new_Order oid symbol s MARKET qty px stop_px))) (next_addr b)) = 0
        then REJECTED
        else if filled_quantity (store (snd (add_order b (new_Order oid symbol s MARKET qty px stop_px))) (next_addr b)) = qty
        then FILLED else PARTIALLY_FILLED)"
proof -
  define ord where "ord = new_Order oid symbol s MARKET qty px stop_px"
  define a where "a = next_addr b"
  define b1 where "b1 = b\<lparr>orders := (orders b)(order_id ord \<mapsto> a),
                 store := (store b)(a := ord), next_addr := Suc a\<rparr>"
  obtain m ord' b' where mo: "match_opposite b1 a = (m, ord', b')" by (cases "match_opposite b1 a")
  have s1: "store b1 a = ord" by (simp add: b1_def)
  have o: "side ord = s" "filled_quantity ord = 0" "order_type ord = MARKET" "quantity ord = qty"
    by (simp_all add: ord_def new_Order_def)
  have "side_ladder b' s = side_ladder b1 s"
    using match_opposite_own_side[of b1 a] by (simp add: mo s1 o(1))
  moreover have "side_ladder b1 s = side_ladder b s" by (simp add: b1_def side_ladder_def)
  ultimately have 1: "side_ladder b' s = side_ladder b s" by simp
  have 2: "m = (filled_quantity ord' \<noteq> 0)"
    using match_opposite_flag[of b1 a] mo s1 o(2) by simp
  have 3: "quantity ord' = qty"
    using match_opposite_fills[of b1 a] mo s1 o(4) by auto
  have r: "snd (add_order b ord) =
     write_order b' a (ord'\<lparr>status := (if m then (if is_filled ord' then FILLED else PARTIALLY_FILLED) else REJECTED)\<rparr>)"
    unfolding add_order_def Let_def a_def[symmetric] b1_def[symmetric]
    by (simp add: o(3) process_market_order_def mo)
  show ?thesis
    unfolding ord_def[symmetric] a_def[symmetric] r
    using 1 2 3 by (auto simp: side_ladder_def is_filled_def split: if_splits)
qed

text \<open>
  The trades of one \<open>add_order\<close> call are numbered one by one from \<open>next_trade_id\<close>;
  the call advances \<open>next_trade_id\<close> and \<open>trade_count\<close> by the number of its trades and
  \<open>total_volume\<close> by their total quantity (all modulo \<open>2^64\<close>).
\<close>

theorem add_order_numbers_its_trades:
  "\<exists>ts. trades (snd (add_order b ord)) = trades b @ ts
        \<and> map trade_id ts = map (\<lambda>i. next_trade_id b + of_nat i) [0..<length ts]
        \<and> next_trade_id (snd (add_order b ord)) = next_trade_id b + of_nat (length ts)
        \<and> trade_count (snd (add_order b ord)) = trade_count b + of_nat (length ts)
        \<and> total_volume (snd (add_order b ord)) = total_volume b + sum_list (map trade_quantity ts)"
proof -
  define a where "a = next_addr b"
  define b1 where "b1 = b\<lparr>orders := (orders b)(order_id ord \<mapsto> a),
                 store := (store b)(a := ord), next_addr := Suc a\<rparr>"
  obtain m ord' b' where mo: "match_opposite b1 a = (m, ord', b')" by (cases "match_opposite b1 a")
  have c1: "counted b1 b'" using match_opposite_counted[of b1 a] mo by simp
  have "counted b b'"
    using c1 by (simp add: counted_def b1_def)
  then have "counted b (snd (add_order b ord))"
    unfolding add_order_def Let_def a_def[symmetric] b1_def[symmetric]
    by (cases "order_type ord")
       (auto simp: process_limit_order_def process_market_order_def mo intro: counted_fields)
  then show ?thesis by (simp add: counted_def)
qed

end
